theory Spec2Isabelle
  imports Complex_Main "HOL-Library.Word" "HOL-Library.Signed_Division"
begin

section \<open>The TimeSeriesImputerTransformer kernel (time_series_imputer_transformer.cc)\<close>

subsection \<open>Failures\<close>

text \<open>
  \<open>Compute\<close> reports a failure in one of two ways: it returns a \<open>Status\<close> that is not OK
  (\<open>ORT_RETURN_IF_NOT\<close>, \<open>ORT_MAKE_STATUS\<close>), or an exception leaves it (\<open>ORT_ENFORCE\<close>,
  \<open>ORT_THROW\<close>, an exception of the imputer library, the element type check of
  \<open>Tensor::Data<T>()\<close>). Both are values of \<open>error\<close>; no outputs exist in either case.
\<close>

datatype status_code = FAIL | INVALID_ARGUMENT

datatype error =
    Status_Error status_code string
  | Enforce_Keys nat int
  | Enforce_Columns nat int
  | Not_Convertible string string
  | Type_Mismatch
  | Engine_Exception string

subsection \<open>Tensors and the kernel context\<close>

text \<open>
  A tensor is its shape (64-bit signed dimensions, read as integers) and its flat,
  row-major buffer. The buffer carries the element type, so that \<open>GetElementType\<close> is a
  function of the tensor and \<open>Data<T>()\<close> on a tensor of another element type fails.
\<close>

datatype elem_type = FLOAT | UINT8 | INT64 | STRING | BOOL | DOUBLE

datatype tensor_data =
    Float_Data "32 word list"
  | Uint8_Data "8 word list"
  | Int64_Data "int list"
  | String_Data "string list"
  | Bool_Data "bool list"
  | Double_Data "64 word list"

record Tensor =
  Shape :: "int list"
  payload :: tensor_data

fun element_type_of :: "tensor_data \<Rightarrow> elem_type" where
  "element_type_of (Float_Data _) = FLOAT"
| "element_type_of (Uint8_Data _) = UINT8"
| "element_type_of (Int64_Data _) = INT64"
| "element_type_of (String_Data _) = STRING"
| "element_type_of (Bool_Data _) = BOOL"
| "element_type_of (Double_Data _) = DOUBLE"

definition GetElementType :: "Tensor \<Rightarrow> elem_type" where
  "GetElementType t = element_type_of (payload t)"

definition NumDimensions :: "int list \<Rightarrow> nat" where
  "NumDimensions shape = length shape"

definition Size :: "int list \<Rightarrow> int" where
  "Size shape = prod_list shape"

fun Data_uint8 :: "Tensor \<Rightarrow> error + 8 word list" where
  "Data_uint8 t = (case payload t of Uint8_Data xs \<Rightarrow> Inr xs | _ \<Rightarrow> Inl Type_Mismatch)"

fun Data_int64 :: "Tensor \<Rightarrow> error + int list" where
  "Data_int64 t = (case payload t of Int64_Data xs \<Rightarrow> Inr xs | _ \<Rightarrow> Inl Type_Mismatch)"

fun Data_string :: "Tensor \<Rightarrow> error + string list" where
  "Data_string t = (case payload t of String_Data xs \<Rightarrow> Inr xs | _ \<Rightarrow> Inl Type_Mismatch)"

fun Data_float :: "Tensor \<Rightarrow> error + 32 word list" where
  "Data_float t = (case payload t of Float_Data xs \<Rightarrow> Inr xs | _ \<Rightarrow> Inl Type_Mismatch)"

fun Data_double :: "Tensor \<Rightarrow> error + 64 word list" where
  "Data_double t = (case payload t of Double_Data xs \<Rightarrow> Inr xs | _ \<Rightarrow> Inl Type_Mismatch)"

text \<open>The four inputs of the operator, \<open>ctx->Input<Tensor>(0..3)\<close>, and its four outputs.\<close>

record OpKernelContext =
  Input0 :: Tensor
  Input1 :: Tensor
  Input2 :: Tensor
  Input3 :: Tensor

record Outputs =
  Output0 :: Tensor
  Output1 :: Tensor
  Output2 :: Tensor
  Output3 :: Tensor

subsection \<open>Time points\<close>

text \<open>
  A \<open>system_clock::time_point\<close> is a signed 64-bit count of clock ticks since the epoch.
  The tick length is the implementation's choice, so the number of ticks per second is a
  parameter \<open>tps\<close> of everything that converts. \<open>from_time_t\<close> multiplies the seconds by it
  in 64 bits: a product outside the range wraps around. \<open>duration_cast\<close> truncates
  towards zero.
\<close>

datatype time_point = Time_Point (ticks: int)

definition wrap64 :: "int \<Rightarrow> int" where
  "wrap64 k = (k + 2 ^ 63) mod 2 ^ 64 - 2 ^ 63"

definition ToTimePoint :: "int \<Rightarrow> int \<Rightarrow> time_point" where
  "ToTimePoint tps secs = Time_Point (wrap64 (secs * tps))"

definition ToSecs :: "int \<Rightarrow> time_point \<Rightarrow> int" where
  "ToSecs tps tp = ticks tp sdiv tps"

subsection \<open>The standard library's floating-point conversions\<close>

text \<open>
  The numeric instances of the codec call \<open>std::isnan\<close>, \<open>std::to_string\<close>,
  \<open>std::strtof\<close>, \<open>std::strtod\<close> and \<open>std::numeric_limits<T>::quiet_NaN()\<close>. A \<open>float\<close> is
  its IEEE 754 binary32 bit pattern (8 exponent bits, 23 fraction bits), a \<open>double\<close> its
  binary64 pattern (11 and 52); the functions below take the two widths \<open>ew\<close> and \<open>fw\<close>
  and the pattern as a natural number.
\<close>

definition fp_negative :: "nat \<Rightarrow> nat \<Rightarrow> nat \<Rightarrow> bool" where
  "fp_negative ew fw b = odd (b div 2 ^ (ew + fw))"

definition fp_exponent :: "nat \<Rightarrow> nat \<Rightarrow> nat \<Rightarrow> nat" where
  "fp_exponent ew fw b = (b div 2 ^ fw) mod 2 ^ ew"

definition fp_fraction :: "nat \<Rightarrow> nat \<Rightarrow> nat" where
  "fp_fraction fw b = b mod 2 ^ fw"

definition fp_isnan :: "nat \<Rightarrow> nat \<Rightarrow> nat \<Rightarrow> bool" where
  "fp_isnan ew fw b = (fp_exponent ew fw b = 2 ^ ew - 1 \<and> fp_fraction fw b \<noteq> 0)"

definition fp_isinf :: "nat \<Rightarrow> nat \<Rightarrow> nat \<Rightarrow> bool" where
  "fp_isinf ew fw b = (fp_exponent ew fw b = 2 ^ ew - 1 \<and> fp_fraction fw b = 0)"

definition fp_bias :: "nat \<Rightarrow> int" where
  "fp_bias ew = 2 ^ (ew - 1) - 1"

definition fp_significand :: "nat \<Rightarrow> nat \<Rightarrow> nat \<Rightarrow> nat" where
  "fp_significand ew fw b =
     (if fp_exponent ew fw b = 0 then fp_fraction fw b else 2 ^ fw + fp_fraction fw b)"

definition fp_scale :: "nat \<Rightarrow> nat \<Rightarrow> nat \<Rightarrow> int" where
  "fp_scale ew fw b =
     (if fp_exponent ew fw b = 0 then 1 else int (fp_exponent ew fw b)) - fp_bias ew - int fw"

definition fp_infinity :: "nat \<Rightarrow> nat \<Rightarrow> nat" where
  "fp_infinity ew fw = (2 ^ ew - 1) * 2 ^ fw"

definition fp_quiet_NaN :: "nat \<Rightarrow> nat \<Rightarrow> nat" where
  "fp_quiet_NaN ew fw = (2 ^ ew - 1) * 2 ^ fw + 2 ^ (fw - 1)"

text \<open>The nearest integer to \<open>p / q\<close>, a tie going to the even one.\<close>

definition round_half_even :: "nat \<Rightarrow> nat \<Rightarrow> nat" where
  "round_half_even p q =
     (let n = p div q; r = p mod q
      in if q < 2 * r \<or> (2 * r = q \<and> odd n) then n + 1 else n)"

text \<open>
  The pattern of the value nearest to \<open>p / q\<close> (a tie to the even significand): the
  rounding of \<open>strtof\<close> and \<open>strtod\<close>. Below the normal range the spacing stays that of
  the smallest normal exponent; a result beyond the largest finite value is infinity.
\<close>

fun bit_length :: "nat \<Rightarrow> nat" where
  "bit_length n = (if n = 0 then 0 else Suc (bit_length (n div 2)))"

declare bit_length.simps [simp del]

definition fp_round :: "nat \<Rightarrow> nat \<Rightarrow> nat \<Rightarrow> nat \<Rightarrow> nat" where
  "fp_round ew fw p q =
     (if p = 0 then 0
      else
        (let e0 = int (bit_length p) - int (bit_length q);
             e = (if q * 2 ^ nat e0 \<le> p * 2 ^ nat (- e0) then e0 else e0 - 1);
             e' = max e (1 - fp_bias ew);
             qe = e' - int fw;
             n = round_half_even (p * 2 ^ nat (- qe)) (q * 2 ^ nat qe);
             bits = nat (e' + fp_bias ew - 1) * 2 ^ fw + n
         in if fp_infinity ew fw \<le> bits then fp_infinity ew fw else bits))"

text \<open>
  \<open>std::to_string\<close> of a \<open>float\<close> or \<open>double\<close> is \<open>sprintf\<close> with \<open>%f\<close>: a sign, then
  \<open>nan\<close>, \<open>inf\<close>, or the value rounded to six decimals (the exact binary value, a tie
  to the even digit).
\<close>

definition digit_char :: "nat \<Rightarrow> char" where
  "digit_char d = ''0123456789'' ! d"

fun decimal :: "nat \<Rightarrow> string" where
  "decimal n = (if n < 10 then [digit_char n] else decimal (n div 10) @ [digit_char (n mod 10)])"

declare decimal.simps [simp del]

definition fixed6 :: "nat \<Rightarrow> string" where
  "fixed6 n = decimal (n div 10 ^ 6) @ ''.'' @
     map (\<lambda>i. digit_char ((n div 10 ^ i) mod 10)) [5, 4, 3, 2, 1, 0]"

definition fp_to_string :: "nat \<Rightarrow> nat \<Rightarrow> nat \<Rightarrow> string" where
  "fp_to_string ew fw b =
     (if fp_negative ew fw b then ''-'' else []) @
     (if fp_isnan ew fw b then ''nan''
      else if fp_isinf ew fw b then ''inf''
      else
        (let m = fp_significand ew fw b; e = fp_scale ew fw b
         in fixed6 (if 0 \<le> e then m * 10 ^ 6 * 2 ^ nat e
                    else round_half_even (m * 10 ^ 6) (2 ^ nat (- e)))))"

text \<open>
  \<open>strtod\<close> in the C locale: white space, an optional sign, then the longest of
  \<open>inf\<close> or \<open>infinity\<close>, \<open>nan\<close> or \<open>nan(\<dots>)\<close> (letters in either case), a
  hexadecimal number with an optional binary exponent, or a decimal number with an
  optional decimal exponent. The result is the value and the number of characters read,
  which is \<open>str_end - str\<close>; no characters are read when there is no number.
\<close>

definition isspace :: "char \<Rightarrow> bool" where
  "isspace c = (c \<in> set [CHR 0x20, CHR 0x09, CHR 0x0A, CHR 0x0B, CHR 0x0C, CHR 0x0D])"

definition isdigit :: "char \<Rightarrow> bool" where
  "isdigit c = (c \<in> set ''0123456789'')"

definition isxdigit :: "char \<Rightarrow> bool" where
  "isxdigit c = (c \<in> set ''0123456789abcdefABCDEF'')"

definition isnchar :: "char \<Rightarrow> bool" where
  "isnchar c = (c \<in> set ''0123456789abcdefghijklmnopqrstuvwxyzABCDEFGHIJKLMNOPQRSTUVWXYZ_'')"

definition digit_value :: "char \<Rightarrow> nat" where
  "digit_value c = of_char c - 48"

definition xdigit_value :: "char \<Rightarrow> nat" where
  "xdigit_value c =
     (if isdigit c then of_char c - 48
      else if c \<in> set ''abcdef'' then of_char c - 87
      else of_char c - 55)"

definition number_of :: "nat \<Rightarrow> (char \<Rightarrow> nat) \<Rightarrow> string \<Rightarrow> nat" where
  "number_of base val ds = foldl (\<lambda>a c. base * a + val c) 0 ds"

fun prefix_ci :: "(char \<times> char) list \<Rightarrow> string \<Rightarrow> bool" where
  "prefix_ci [] s = True"
| "prefix_ci ((l, u) # ps) [] = False"
| "prefix_ci ((l, u) # ps) (c # cs) = ((c = l \<or> c = u) \<and> prefix_ci ps cs)"

definition optional_sign :: "string \<Rightarrow> bool \<times> nat \<times> string" where
  "optional_sign s =
     (case s of
        [] \<Rightarrow> (False, 0, s)
      | c # r \<Rightarrow>
          if c = CHR ''-'' then (True, 1, r)
          else if c = CHR ''+'' then (False, 1, r)
          else (False, 0, s))"

definition digits_point_digits :: "(char \<Rightarrow> bool) \<Rightarrow> string \<Rightarrow> string \<times> string \<times> nat \<times> string" where
  "digits_point_digits isd s =
     (let ip = takeWhile isd s; s1 = dropWhile isd s
      in case s1 of
           [] \<Rightarrow> (ip, [], length ip, s1)
         | c # r \<Rightarrow>
             if c = CHR ''.''
             then (let fp = takeWhile isd r
                   in (ip, fp, length ip + 1 + length fp, dropWhile isd r))
             else (ip, [], length ip, s1))"

definition exponent_part :: "char \<Rightarrow> char \<Rightarrow> string \<Rightarrow> int \<times> nat" where
  "exponent_part l u s =
     (case s of
        [] \<Rightarrow> (0, 0)
      | c # r \<Rightarrow>
          if c = l \<or> c = u
          then (case optional_sign r of
                  (neg, sl, r') \<Rightarrow>
                    (let ds = takeWhile isdigit r'
                     in if ds = [] then (0, 0)
                        else (if neg then - int (number_of 10 digit_value ds)
                              else int (number_of 10 digit_value ds),
                              1 + sl + length ds)))
          else (0, 0))"

text \<open>
  What was read: an infinity, a NaN with its payload, or a number: \<open>Parsed_Num m e2 e10\<close>
  is \<open>m\<close> times two to the power \<open>e2\<close> times ten to the power \<open>e10\<close>.
\<close>

datatype parsed = Parsed_Inf | Parsed_NaN nat | Parsed_Num nat int int

definition decimal_subject :: "string \<Rightarrow> (parsed \<times> nat) option" where
  "decimal_subject s =
     (case digits_point_digits isdigit s of
        (ip, fp, n, rest) \<Rightarrow>
          if ip = [] \<and> fp = [] then None
          else (case exponent_part CHR ''e'' CHR ''E'' rest of
                  (e, en) \<Rightarrow>
                    Some (Parsed_Num (number_of 10 digit_value (ip @ fp)) 0 (e - int (length fp)),
                          n + en)))"

definition hex_subject :: "string \<Rightarrow> (parsed \<times> nat) option" where
  "hex_subject s =
     (case s of
        c0 # c1 # hs \<Rightarrow>
          if c0 = CHR ''0'' \<and> (c1 = CHR ''x'' \<or> c1 = CHR ''X'')
          then (case digits_point_digits isxdigit hs of
                  (ip, fp, n, rest) \<Rightarrow>
                    if ip = [] \<and> fp = [] then None
                    else (case exponent_part CHR ''p'' CHR ''P'' rest of
                            (e, en) \<Rightarrow>
                              Some (Parsed_Num (number_of 16 xdigit_value (ip @ fp))
                                      (e - 4 * int (length fp)) 0,
                                    2 + n + en)))
          else None
      | _ \<Rightarrow> None)"

text \<open>
  The characters between the parentheses of \<open>nan(\<dots>)\<close> are read as \<open>strtoull\<close> with base 0
  reads them (\<open>0x\<close> for hexadecimal, a leading \<open>0\<close> for octal, decimal otherwise, at most
  \<open>ULLONG_MAX\<close>); when they are a number from the first to the last, it is the payload of
  the NaN, and otherwise the payload is zero.
\<close>

definition isodigit :: "char \<Rightarrow> bool" where
  "isodigit c = (c \<in> set ''01234567'')"

definition nan_payload :: "string \<Rightarrow> nat" where
  "nan_payload seq =
     (case seq of
        [] \<Rightarrow> 0
      | c0 # r \<Rightarrow>
          if c0 = CHR ''0'' then
            (case r of
               [] \<Rightarrow> 0
             | c1 # hs \<Rightarrow>
                 if (c1 = CHR ''x'' \<or> c1 = CHR ''X'') \<and> hs \<noteq> [] \<and> list_all isxdigit hs
                   then min (number_of 16 xdigit_value hs) (2 ^ 64 - 1)
                 else if list_all isodigit r
                   then min (number_of 8 digit_value r) (2 ^ 64 - 1)
                 else 0)
          else if list_all isdigit seq
            then min (number_of 10 digit_value seq) (2 ^ 64 - 1)
          else 0)"

definition nan_subject :: "string \<Rightarrow> (parsed \<times> nat) option" where
  "nan_subject s =
     (if prefix_ci (zip ''nan'' ''NAN'') s
      then (case drop 3 s of
              [] \<Rightarrow> Some (Parsed_NaN 0, 3)
            | c # r \<Rightarrow>
                if c = CHR ''(''
                then (case dropWhile isnchar r of
                        [] \<Rightarrow> Some (Parsed_NaN 0, 3)
                      | d # _ \<Rightarrow>
                          if d = CHR '')''
                          then Some (Parsed_NaN (nan_payload (takeWhile isnchar r)),
                                     3 + 1 + length (takeWhile isnchar r) + 1)
                          else Some (Parsed_NaN 0, 3))
                else Some (Parsed_NaN 0, 3))
      else None)"

definition subject_sequence :: "string \<Rightarrow> (parsed \<times> nat) option" where
  "subject_sequence s =
     (if prefix_ci (zip ''infinity'' ''INFINITY'') s then Some (Parsed_Inf, 8)
      else if prefix_ci (zip ''inf'' ''INF'') s then Some (Parsed_Inf, 3)
      else (case nan_subject s of
              Some r \<Rightarrow> Some r
            | None \<Rightarrow>
                (case hex_subject s of
                   Some r \<Rightarrow> Some r
                 | None \<Rightarrow> decimal_subject s)))"

definition fp_of_parsed :: "nat \<Rightarrow> nat \<Rightarrow> bool \<Rightarrow> parsed \<Rightarrow> nat" where
  "fp_of_parsed ew fw neg p =
     (if neg then 2 ^ (ew + fw) else 0) +
     (case p of
        Parsed_Inf \<Rightarrow> fp_infinity ew fw
      | Parsed_NaN k \<Rightarrow> fp_quiet_NaN ew fw + k mod 2 ^ (fw - 1)
      | Parsed_Num m e2 e10 \<Rightarrow>
          fp_round ew fw
            (m * 2 ^ nat e2 * 10 ^ nat e10) (2 ^ nat (- e2) * 10 ^ nat (- e10)))"

definition fp_strto :: "nat \<Rightarrow> nat \<Rightarrow> string \<Rightarrow> nat \<times> nat" where
  "fp_strto ew fw str =
     (let ws = takeWhile isspace str
      in case optional_sign (dropWhile isspace str) of
           (neg, sl, s) \<Rightarrow>
             (case subject_sequence s of
                None \<Rightarrow> (0, 0)
              | Some (p, n) \<Rightarrow> (fp_of_parsed ew fw neg p, length ws + sl + n)))"

definition strtof :: "string \<Rightarrow> 32 word \<times> nat" where
  "strtof str = (case fp_strto 8 23 str of (b, n) \<Rightarrow> (of_nat b, n))"

definition strtod :: "string \<Rightarrow> 64 word \<times> nat" where
  "strtod str = (case fp_strto 11 52 str of (b, n) \<Rightarrow> (of_nat b, n))"

text \<open>\<open>std::string::c_str()\<close>: the characters up to the first NUL, which is all a C function sees.\<close>

definition c_str :: "string \<Rightarrow> string" where
  "c_str val = takeWhile (\<lambda>c. c \<noteq> CHR 0x00) val"

definition to_string_float :: "32 word \<Rightarrow> string" where
  "to_string_float val = fp_to_string 8 23 (unat val)"

definition to_string_double :: "64 word \<Rightarrow> string" where
  "to_string_double val = fp_to_string 11 52 (unat val)"

definition isnan_float :: "32 word \<Rightarrow> bool" where
  "isnan_float val = fp_isnan 8 23 (unat val)"

definition isnan_double :: "64 word \<Rightarrow> bool" where
  "isnan_double val = fp_isnan 11 52 (unat val)"

definition quiet_NaN_float :: "32 word" where
  "quiet_NaN_float = of_nat (fp_quiet_NaN 8 23)"

definition quiet_NaN_double :: "64 word" where
  "quiet_NaN_double = of_nat (fp_quiet_NaN 11 52)"

subsection \<open>The value codec for \<open>std::string\<close>\<close>

definition ToString_string :: "string \<Rightarrow> string" where
  "ToString_string val = val"

definition ToStringOptional_string :: "string \<Rightarrow> string option" where
  "ToStringOptional_string val = (if val = [] then None else Some val)"

definition FromString_string :: "string \<Rightarrow> error + string" where
  "FromString_string val = Inr val"

definition FromStringOptional_string :: "string option \<Rightarrow> error + string" where
  "FromStringOptional_string val = (case val of Some s \<Rightarrow> Inr s | None \<Rightarrow> Inr [])"

subsection \<open>The value codec for \<open>float\<close> and \<open>double\<close>\<close>

definition ToString :: "('a \<Rightarrow> string) \<Rightarrow> 'a \<Rightarrow> string" where
  "ToString to_string val = to_string val"

definition FromString_float :: "string \<Rightarrow> error + 32 word" where
  "FromString_float val =
     (let str = c_str val
      in case strtof str of
           (result, str_end) \<Rightarrow>
             if str_end = 0 then Inl (Not_Convertible ''float'' val) else Inr result)"

definition FromString_double :: "string \<Rightarrow> error + 64 word" where
  "FromString_double val =
     (let str = c_str val
      in case strtod str of
           (result, str_end) \<Rightarrow>
             if str_end = 0 then Inl (Not_Convertible ''double'' val) else Inr result)"

subsection \<open>The primary templates of the codec\<close>

text \<open>
  \<open>ToStringOptional<T>\<close> and \<open>FromStringOptional<T>\<close> are written once for every numeric
  \<open>T\<close>; what they take from \<open>T\<close> (\<open>std::isnan\<close>, \<open>std::to_string\<close>, \<open>FromString<T>\<close>,
  \<open>std::numeric_limits<T>::quiet_NaN()\<close>) is passed in.
\<close>

definition ToStringOptional :: "('a \<Rightarrow> bool) \<Rightarrow> ('a \<Rightarrow> string) \<Rightarrow> 'a \<Rightarrow> string option" where
  "ToStringOptional isnan to_string val = (if isnan val then None else Some (to_string val))"

definition FromStringOptional :: "(string \<Rightarrow> error + 'a) \<Rightarrow> 'a \<Rightarrow> string option \<Rightarrow> error + 'a" where
  "FromStringOptional from_string quiet_NaN val =
     (case val of Some s \<Rightarrow> from_string s | None \<Rightarrow> Inr quiet_NaN)"

text \<open>
  What \<open>TimeSeriesImputerTransformerImpl<T>\<close> uses of its template argument: the four
  codec functors at \<open>T\<close>, and the typed access to tensor buffers.
\<close>

record 'a scalar_type =
  ToString_T :: "'a \<Rightarrow> string"
  ToStringOptional_T :: "'a \<Rightarrow> string option"
  FromString_T :: "string \<Rightarrow> error + 'a"
  FromStringOptional_T :: "string option \<Rightarrow> error + 'a"
  Data_T :: "Tensor \<Rightarrow> error + 'a list"
  MutableData_T :: "'a list \<Rightarrow> tensor_data"

definition string_type :: "string scalar_type" where
  "string_type =
     \<lparr> ToString_T = ToString_string,
       ToStringOptional_T = ToStringOptional_string,
       FromString_T = FromString_string,
       FromStringOptional_T = FromStringOptional_string,
       Data_T = Data_string,
       MutableData_T = String_Data \<rparr>"

definition float_type :: "32 word scalar_type" where
  "float_type =
     \<lparr> ToString_T = ToString to_string_float,
       ToStringOptional_T = ToStringOptional isnan_float to_string_float,
       FromString_T = FromString_float,
       FromStringOptional_T = FromStringOptional FromString_float quiet_NaN_float,
       Data_T = Data_float,
       MutableData_T = Float_Data \<rparr>"

definition double_type :: "64 word scalar_type" where
  "double_type =
     \<lparr> ToString_T = ToString to_string_double,
       ToStringOptional_T = ToStringOptional isnan_double to_string_double,
       FromString_T = FromString_double,
       FromStringOptional_T = FromStringOptional FromString_double quiet_NaN_double,
       Data_T = Data_double,
       MutableData_T = Double_Data \<rparr>"

subsection \<open>The imputer\<close>

text \<open>
  \<open>ft::Components::TimeSeriesImputerEstimator::Transformer\<close> belongs to the featurizers
  library; the kernel only constructs it from the state bytes and calls \<open>execute\<close> and
  \<open>flush\<close>. It is a parameter here: a state type with the three operations. Each may
  throw (\<open>Inl\<close> with the message); \<open>execute\<close> and \<open>flush\<close> return the new state and the
  rows they passed to the callback, in the order of the calls.
\<close>

type_synonym InputRow = "time_point \<times> string list \<times> string option list"

type_synonym OutputType = "bool \<times> time_point \<times> string list \<times> string option list"

record 's Transformer =
  construct :: "8 word list \<Rightarrow> string + 's"
  execute :: "'s \<Rightarrow> InputRow \<Rightarrow> string + ('s \<times> OutputType list)"
  flush :: "'s \<Rightarrow> string + ('s \<times> OutputType list)"

subsection \<open>\<open>TimeSeriesImputerTransformerImpl<T>::operator()\<close>\<close>

text \<open>The body of the input loop up to \<open>std::make_tuple\<close>: the row at index \<open>row\<close>.\<close>

definition tuple_row ::
  "int \<Rightarrow> 'a scalar_type \<Rightarrow> int list \<Rightarrow> 'a list \<Rightarrow> 'a list \<Rightarrow> int \<Rightarrow> int \<Rightarrow> int \<Rightarrow> InputRow" where
  "tuple_row tps T times_data keys_data data_data keys_per_row columns row =
     (let key_row_data = drop (nat (row * keys_per_row)) keys_data;
          str_keys = map (ToString_T T) (take (nat keys_per_row) key_row_data);
          data_row = drop (nat (row * columns)) data_data;
          str_data = map (ToStringOptional_T T) (take (nat columns) data_row)
      in (ToTimePoint tps (times_data ! nat row), str_keys, str_data))"

text \<open>
  The input loop \<open>for (row = 0; row < rows; ++row)\<close>: one \<open>execute\<close> per row; the callback
  appends what is emitted to \<open>output_rows\<close>.
\<close>

function for_each_row ::
  "'s Transformer \<Rightarrow> (int \<Rightarrow> InputRow) \<Rightarrow> int \<Rightarrow> int \<Rightarrow> 's \<Rightarrow> OutputType list
     \<Rightarrow> error + ('s \<times> OutputType list)" where
  "for_each_row transformer row_at rows row st output_rows =
     (if row < rows then
        (case execute transformer st (row_at row) of
           Inl msg \<Rightarrow> Inl (Engine_Exception msg)
         | Inr (st', emitted) \<Rightarrow>
             for_each_row transformer row_at rows (row + 1) st' (output_rows @ emitted))
      else Inr (st, output_rows))"
  by pat_completeness auto
termination
  by (relation "measure (\<lambda>(transformer, row_at, rows, row, st, output_rows). nat (rows - row))") auto

declare for_each_row.simps [simp del]

text \<open>The loop, then the one \<open>flush\<close>.\<close>

definition feed ::
  "'s Transformer \<Rightarrow> (int \<Rightarrow> InputRow) \<Rightarrow> int \<Rightarrow> 's \<Rightarrow> error + ('s \<times> OutputType list)" where
  "feed transformer row_at rows st0 =
     (case for_each_row transformer row_at rows 0 st0 [] of
        Inl e \<Rightarrow> Inl e
      | Inr (st1, output_rows) \<Rightarrow>
          (case flush transformer st1 of
             Inl msg \<Rightarrow> Inl (Engine_Exception msg)
           | Inr (st2, emitted) \<Rightarrow> Inr (st2, output_rows @ emitted)))"

text \<open>\<open>std::transform\<close> with a functor that may throw: the first failure ends it.\<close>

fun transform :: "('a \<Rightarrow> error + 'b) \<Rightarrow> 'a list \<Rightarrow> error + 'b list" where
  "transform f [] = Inr []"
| "transform f (x # xs) =
     (case f x of
        Inl e \<Rightarrow> Inl e
      | Inr y \<Rightarrow> (case transform f xs of Inl e \<Rightarrow> Inl e | Inr ys \<Rightarrow> Inr (y # ys)))"

text \<open>\<open>std::get<0>\<close> to \<open>std::get<3>\<close> on an emitted row.\<close>

definition get0 :: "OutputType \<Rightarrow> bool" where
  "get0 out = fst out"

definition get1 :: "OutputType \<Rightarrow> time_point" where
  "get1 out = fst (snd out)"

definition get2 :: "OutputType \<Rightarrow> string list" where
  "get2 out = fst (snd (snd out))"

definition get3 :: "OutputType \<Rightarrow> string option list" where
  "get3 out = snd (snd (snd out))"

text \<open>
  The output loop \<open>for (const auto& out : output_rows)\<close>. The four accumulators are what
  has been written through the four output pointers so far.
\<close>

fun write_rows ::
  "int \<Rightarrow> 'a scalar_type \<Rightarrow> int \<Rightarrow> int \<Rightarrow> OutputType list
     \<Rightarrow> bool list \<times> int list \<times> 'a list \<times> 'a list
     \<Rightarrow> error + (bool list \<times> int list \<times> 'a list \<times> 'a list)" where
  "write_rows tps T keys_per_row columns [] written = Inr written"
| "write_rows tps T keys_per_row columns (out # rest)
       (added_output, time_output, keys_output, data_output) =
     (let added_output' = added_output @ [get0 out];
          time_output' = time_output @ [ToSecs tps (get1 out)];
          imputed_keys = get2 out;
          imputed_data = get3 out in
      if int (length imputed_keys) \<noteq> keys_per_row
        then Inl (Enforce_Keys (length imputed_keys) keys_per_row)
      else if int (length imputed_data) \<noteq> columns
        then Inl (Enforce_Columns (length imputed_data) columns)
      else (case transform (FromString_T T) imputed_keys of
              Inl e \<Rightarrow> Inl e
            | Inr ks \<Rightarrow>
               (case transform (FromStringOptional_T T) imputed_data of
                  Inl e \<Rightarrow> Inl e
                | Inr ds \<Rightarrow>
                    write_rows tps T keys_per_row columns rest
                      (added_output', time_output', keys_output @ ks, data_output @ ds))))"

text \<open>
  The first half of \<open>operator()\<close>, up to and including \<open>transformer.flush(callback_fn)\<close>:
  the typed buffers are taken from the inputs, the imputer is constructed from the state
  bytes, and every input row is fed to it. The result is \<open>output_rows\<close> (and the imputer's
  last state, which the code drops at the end of the call).
\<close>

definition collect_output_rows ::
  "int \<Rightarrow> 'a scalar_type \<Rightarrow> 's Transformer \<Rightarrow> OpKernelContext \<Rightarrow> int \<Rightarrow> int \<Rightarrow> int
     \<Rightarrow> error + ('s \<times> OutputType list)" where
  "collect_output_rows tps T transformer ctx keys_per_row columns rows =
     (let state = Input0 ctx; times = Input1 ctx; keys = Input2 ctx; data = Input3 ctx in
      case Data_uint8 state of
        Inl e \<Rightarrow> Inl e
      | Inr state_data \<Rightarrow>
     (case construct transformer (take (nat (Size (Shape state))) state_data) of
        Inl msg \<Rightarrow> Inl (Engine_Exception msg)
      | Inr st0 \<Rightarrow>
     (case Data_int64 times of
        Inl e \<Rightarrow> Inl e
      | Inr times_data \<Rightarrow>
     (case Data_T T keys of
        Inl e \<Rightarrow> Inl e
      | Inr keys_data \<Rightarrow>
     (case Data_T T data of
        Inl e \<Rightarrow> Inl e
      | Inr data_data \<Rightarrow>
          feed transformer
            (tuple_row tps T times_data keys_data data_data keys_per_row columns) rows st0)))))"

text \<open>
  The second half, from \<open>// Compute output shapes now\<close>: the four outputs are allocated
  with \<open>output_rows.size()\<close> as their first dimension and filled by the output loop.
\<close>

definition write_outputs ::
  "int \<Rightarrow> 'a scalar_type \<Rightarrow> int \<Rightarrow> int \<Rightarrow> OutputType list \<Rightarrow> error + Outputs" where
  "write_outputs tps T keys_per_row columns output_rows =
     (let output_rows_num = int (length output_rows);
          rows_shape = [output_rows_num];
          keys_shape = [output_rows_num, keys_per_row];
          data_shape = [output_rows_num, columns] in
      case write_rows tps T keys_per_row columns output_rows ([], [], [], []) of
        Inl e \<Rightarrow> Inl e
      | Inr (added_output, time_output, keys_output, data_output) \<Rightarrow>
          Inr \<lparr> Output0 = \<lparr> Shape = rows_shape, payload = Bool_Data added_output \<rparr>,
                Output1 = \<lparr> Shape = rows_shape, payload = Int64_Data time_output \<rparr>,
                Output2 = \<lparr> Shape = keys_shape, payload = MutableData_T T keys_output \<rparr>,
                Output3 = \<lparr> Shape = data_shape, payload = MutableData_T T data_output \<rparr> \<rparr>)"

definition TimeSeriesImputerTransformerImpl ::
  "int \<Rightarrow> 'a scalar_type \<Rightarrow> 's Transformer \<Rightarrow> OpKernelContext \<Rightarrow> int \<Rightarrow> error + Outputs" where
  "TimeSeriesImputerTransformerImpl tps T transformer ctx rows =
     (let keys_per_row = Shape (Input2 ctx) ! 1;
          columns = Shape (Input3 ctx) ! 1 in
      case collect_output_rows tps T transformer ctx keys_per_row columns rows of
        Inl e \<Rightarrow> Inl e
      | Inr (st, output_rows) \<Rightarrow> write_outputs tps T keys_per_row columns output_rows)"

subsection \<open>\<open>TimeSeriesImputerTransformer::CheckBatches\<close> and \<open>Compute\<close>\<close>

definition CheckBatches :: "int \<Rightarrow> int list \<Rightarrow> error + unit" where
  "CheckBatches rows shape =
     (if NumDimensions shape = 2 then
        (if rows = shape ! 0 then Inr ()
         else Inl (Status_Error FAIL ''Number of rows does not match''))
      else Inl (Status_Error INVALID_ARGUMENT ''Expect shape of [R][C]''))"

definition Compute :: "int \<Rightarrow> 's Transformer \<Rightarrow> OpKernelContext \<Rightarrow> error + Outputs" where
  "Compute tps transformer ctx =
     (let times = Input1 ctx; times_shape = Shape times in
      if NumDimensions times_shape \<noteq> 1
        then Inl (Status_Error FAIL ''Times must have shape [B][R] or [R]'')
      else
     (let rows = times_shape ! 0; keys = Input2 ctx in
      case CheckBatches rows (Shape keys) of
        Inl e \<Rightarrow> Inl e
      | Inr _ \<Rightarrow>
     (let data = Input3 ctx in
      case CheckBatches rows (Shape data) of
        Inl e \<Rightarrow> Inl e
      | Inr _ \<Rightarrow>
     (let data_type = GetElementType data in
      if GetElementType keys \<noteq> data_type
        then Inl (Status_Error FAIL ''Keys and data must have the same datatype'')
      else TimeSeriesImputerTransformerImpl tps string_type transformer ctx rows))))"

section \<open>Reading the adapter: the calls it makes and the rows it writes\<close>

text \<open>
  The call sequence of the adapter as the design describes it: \<open>execute\<close> on each row of
  a list in turn, the emitted rows collected in order, an exception ending the run.
\<close>

fun execute_each :: "'s Transformer \<Rightarrow> 's \<Rightarrow> InputRow list \<Rightarrow> error + ('s \<times> OutputType list)" where
  "execute_each transformer st [] = Inr (st, [])"
| "execute_each transformer st (r # rs) =
     (case execute transformer st r of
        Inl msg \<Rightarrow> Inl (Engine_Exception msg)
      | Inr (st', emitted) \<Rightarrow>
          (case execute_each transformer st' rs of
             Inl e \<Rightarrow> Inl e
           | Inr (st'', later) \<Rightarrow> Inr (st'', emitted @ later)))"

text \<open>
  An imputer that does nothing but record the calls it receives, in its state. Running
  the adapter against it shows which calls the adapter makes, and in which order.
\<close>

datatype call = Execute_Call InputRow | Flush_Call

definition recorder :: "call list Transformer" where
  "recorder =
     \<lparr> construct = (\<lambda>bytes. Inr []),
       execute = (\<lambda>calls r. Inr (calls @ [Execute_Call r], [])),
       flush = (\<lambda>calls. Inr (calls @ [Flush_Call], [])) \<rparr>"

text \<open>What the \<open>std::string\<close> codec writes for an absent data value, and for a present one.\<close>

definition absent_to_empty :: "string option \<Rightarrow> string" where
  "absent_to_empty v = (case v of Some s \<Rightarrow> s | None \<Rightarrow> [])"

text \<open>The two \<open>ORT_ENFORCE\<close> conditions of the output loop, on one emitted row.\<close>

definition arity_ok :: "int \<Rightarrow> int \<Rightarrow> OutputType \<Rightarrow> bool" where
  "arity_ok keys_per_row columns out =
     (int (length (get2 out)) = keys_per_row \<and> int (length (get3 out)) = columns)"

text \<open>
  What \<open>strtof\<close> and \<open>strtod\<close> can read a number from: after white space and an optional
  sign, the text begins with a digit, with a point and a digit, or with \<open>inf\<close> or \<open>nan\<close>
  in either letter case. What follows the number does not matter.
\<close>

definition numeric_start :: "string \<Rightarrow> bool" where
  "numeric_start s =
     (prefix_ci (zip ''inf'' ''INF'') s \<or> prefix_ci (zip ''nan'' ''NAN'') s \<or>
      (case s of
         [] \<Rightarrow> False
       | c # r \<Rightarrow> isdigit c \<or> (c = CHR ''.'' \<and> (case r of [] \<Rightarrow> False | d # _ \<Rightarrow> isdigit d))))"

definition begins_with_number :: "string \<Rightarrow> bool" where
  "begins_with_number val =
     numeric_start (snd (snd (optional_sign (dropWhile isspace (c_str val)))))"


section \<open>The imputer of the design\<close>

text \<open>
  Modelled from the spec: the imputer state machine (the featurizers library's
  \<open>TimeSeriesImputerEstimator::Transformer\<close>), which the kernel calls and whose code is
  not part of this file. Following the design's section 4.2: per key-group the imputer
  keeps the last-seen timestamp and the last known value of each column, and it keeps the
  completed rows it is still holding. \<open>execute\<close> on a row of a group seen before fails
  when the row is older than the group's last one; otherwise it completes a synthesized
  row (\<open>added = true\<close>, the known values carried forward) at each whole cadence step
  strictly between the two timestamps, then the row itself (\<open>added = false\<close>) with its
  absent values filled from the known ones. The first row of a group is completed as it
  is. The look-ahead rule: a completed row is held for as long as some group's last-seen
  timestamp is earlier than the row's, because that group's next row can still bring
  synthesized rows with earlier timestamps. \<open>execute\<close> emits the held rows that need no
  more look-ahead, in timestamp order, and \<open>flush\<close> emits every row still held, in
  timestamp order; rows of equal timestamp keep the order in which they were completed.
  The layout of the state image is outside the design's scope: the cadence it configures
  is the parameter \<open>cadence\<close> (in clock ticks), and the constructor accepts every image.
\<close>

record imputer_state =
  groups :: "(string list \<times> time_point \<times> string option list) list"
  held :: "OutputType list"

text \<open>
  Modelled from the spec: filling the absent values of a row from the group's last known
  values, column by column (the imputer's code is not part of this file).
\<close>

fun fill :: "string option list \<Rightarrow> string option list \<Rightarrow> string option list" where
  "fill [] known = []"
| "fill (v # vs) [] = v # vs"
| "fill (v # vs) (k # ks) = (case v of None \<Rightarrow> k | Some x \<Rightarrow> Some x) # fill vs ks"

text \<open>
  Modelled from the spec: the timestamps of the rows synthesized between a group's last
  row at \<open>prev\<close> and its next row at \<open>t\<close>, one per whole cadence step strictly between.
\<close>

definition gap_times :: "int \<Rightarrow> int \<Rightarrow> int \<Rightarrow> int list" where
  "gap_times cadence prev t =
     (if 0 < cadence then map (\<lambda>n. prev + n * cadence) [1..(t - prev - 1) div cadence]
      else [])"

text \<open>
  Modelled from the spec: the look-ahead rule. A row needs no more look-ahead when no
  group's last-seen timestamp is earlier than the row's.
\<close>

definition ready :: "(string list \<times> time_point \<times> string option list) list \<Rightarrow> OutputType \<Rightarrow> bool" where
  "ready gs out = list_all (\<lambda>g. ticks (get1 out) \<le> ticks (fst (snd g))) gs"

text \<open>Modelled from the spec: rows in timestamp order, equal timestamps in the given order.\<close>

definition in_time_order :: "OutputType list \<Rightarrow> OutputType list" where
  "in_time_order outs = sort_key (\<lambda>out. ticks (get1 out)) outs"

text \<open>
  Modelled from the spec: the end of \<open>execute\<close>. The held rows that need no more
  look-ahead are emitted in timestamp order; the others stay.
\<close>

definition release :: "imputer_state \<Rightarrow> string + (imputer_state \<times> OutputType list)" where
  "release st =
     Inr (st\<lparr>held := filter (\<lambda>out. \<not> ready (groups st) out) (held st)\<rparr>,
          in_time_order (filter (ready (groups st)) (held st)))"

text \<open>Modelled from the spec: \<open>execute\<close> of the imputer, as described above.\<close>

definition imputer_execute ::
  "int \<Rightarrow> imputer_state \<Rightarrow> InputRow \<Rightarrow> string + (imputer_state \<times> OutputType list)" where
  "imputer_execute cadence st row =
     (case row of (tp, keys, vals) \<Rightarrow>
        (case map_of (groups st) keys of
           None \<Rightarrow>
             release \<lparr> groups = (keys, tp, vals) # groups st,
                       held = held st @ [(False, tp, keys, vals)] \<rparr>
         | Some (last_tp, known) \<Rightarrow>
             if ticks tp < ticks last_tp then Inl ''Input stream not in chronological order''
             else
               (let synthesized =
                      map (\<lambda>t. (True, Time_Point t, keys, known))
                        (gap_times cadence (ticks last_tp) (ticks tp));
                    filled = fill vals known
                in release \<lparr> groups = (keys, tp, filled) # filter (\<lambda>g. fst g \<noteq> keys) (groups st),
                             held = held st @ synthesized @ [(False, tp, keys, filled)] \<rparr>)))"

text \<open>Modelled from the spec: \<open>flush\<close> of the imputer; every row still held is emitted.\<close>

definition imputer_flush :: "imputer_state \<Rightarrow> string + (imputer_state \<times> OutputType list)" where
  "imputer_flush st = Inr (st\<lparr>held := []\<rparr>, in_time_order (held st))"

text \<open>Modelled from the spec: the imputer, as the adapter sees it.\<close>

definition spec_imputer :: "int \<Rightarrow> imputer_state Transformer" where
  "spec_imputer cadence =
     \<lparr> construct = (\<lambda>image. Inr \<lparr> groups = [], held = [] \<rparr>),
       execute = imputer_execute cadence,
       flush = imputer_flush \<rparr>"


section \<open>Lemmas about the floating-point conversions\<close>

lemma decimal_subject_None_iff:
  "decimal_subject s = None \<longleftrightarrow>
     \<not> (case s of
          [] \<Rightarrow> False
        | c # r \<Rightarrow> isdigit c \<or> (c = CHR ''.'' \<and> (case r of [] \<Rightarrow> False | d # _ \<Rightarrow> isdigit d)))"
proof (cases s)
  case Nil
  then show ?thesis
    by (simp add: decimal_subject_def digits_point_digits_def)
next
  case (Cons c r)
  show ?thesis
  proof (cases "isdigit c")
    case True
    then show ?thesis
      unfolding Cons decimal_subject_def digits_point_digits_def Let_def
      by (auto split: list.splits prod.splits)
  next
    case False
    then have "c = CHR ''.'' \<Longrightarrow> \<not> isdigit CHR ''.''" by simp
    with False show ?thesis
      unfolding Cons decimal_subject_def digits_point_digits_def Let_def
      by (cases r) (auto split: prod.splits)
  qed
qed

lemma decimal_subject_consumed:
  "decimal_subject s = Some (p, n) \<Longrightarrow> 0 < n"
  unfolding decimal_subject_def digits_point_digits_def Let_def
  by (auto split: list.splits prod.splits if_splits)

lemma hex_subject_consumed:
  "hex_subject s = Some (p, n) \<Longrightarrow> 0 < n"
  unfolding hex_subject_def
  by (auto split: list.splits prod.splits if_splits)

lemma hex_subject_digit:
  "hex_subject s = Some r \<Longrightarrow> \<exists>t. s = CHR ''0'' # t"
  unfolding hex_subject_def
  by (auto split: list.splits prod.splits if_splits)

lemma nan_subject_None_iff: "nan_subject s = None \<longleftrightarrow> \<not> prefix_ci (zip ''nan'' ''NAN'') s"
  unfolding nan_subject_def
  by (auto split: list.splits)

lemma nan_subject_consumed: "nan_subject s = Some (p, n) \<Longrightarrow> 0 < n"
  unfolding nan_subject_def
  by (auto split: list.splits if_splits)

lemma prefix_ci_append: "prefix_ci (ps @ qs) s \<Longrightarrow> prefix_ci ps s"
  by (induction ps s rule: prefix_ci.induct) auto

lemma prefix_ci_infinity:
  "prefix_ci (zip ''infinity'' ''INFINITY'') s \<Longrightarrow> prefix_ci (zip ''inf'' ''INF'') s"
  using prefix_ci_append [of "zip ''inf'' ''INF''" "zip ''inity'' ''INITY''" s] by simp

lemma subject_sequence_None_iff: "subject_sequence s = None \<longleftrightarrow> \<not> numeric_start s"
proof (cases "prefix_ci (zip ''inf'' ''INF'') s")
  case True
  then show ?thesis
    by (simp add: subject_sequence_def numeric_start_def)
next
  case no_inf: False
  with prefix_ci_infinity have no_infinity: "\<not> prefix_ci (zip ''infinity'' ''INFINITY'') s"
    by blast
  show ?thesis
  proof (cases "nan_subject s")
    case (Some r)
    then have "prefix_ci (zip ''nan'' ''NAN'') s"
      using nan_subject_None_iff [of s] by auto
    with Some no_inf no_infinity show ?thesis
      by (simp add: subject_sequence_def numeric_start_def)
  next
    case no_nan: None
    then have nan: "\<not> prefix_ci (zip ''nan'' ''NAN'') s"
      by (simp add: nan_subject_None_iff)
    show ?thesis
    proof (cases "hex_subject s")
      case (Some r)
      from hex_subject_digit [OF Some] obtain t where "s = CHR ''0'' # t" ..
      then have "numeric_start s"
        by (simp add: numeric_start_def isdigit_def)
      with Some no_nan no_inf no_infinity show ?thesis
        by (simp add: subject_sequence_def)
    next
      case None
      have "subject_sequence s = decimal_subject s"
        using None no_nan no_inf no_infinity by (simp add: subject_sequence_def)
      moreover have "numeric_start s \<longleftrightarrow>
          (case s of
             [] \<Rightarrow> False
           | c # r \<Rightarrow> isdigit c \<or> (c = CHR ''.'' \<and> (case r of [] \<Rightarrow> False | d # _ \<Rightarrow> isdigit d)))"
        using no_inf nan unfolding numeric_start_def by blast
      ultimately show ?thesis
        by (simp only: decimal_subject_None_iff)
    qed
  qed
qed

lemma subject_sequence_consumed: "subject_sequence s = Some (p, n) \<Longrightarrow> 0 < n"
  unfolding subject_sequence_def
  by (auto split: if_splits option.splits
      dest: nan_subject_consumed hex_subject_consumed decimal_subject_consumed)

lemma fp_strto_consumed_iff:
  "snd (fp_strto ew fw (c_str val)) = 0 \<longleftrightarrow> \<not> begins_with_number val"
proof -
  obtain neg sl s where sign: "optional_sign (dropWhile isspace (c_str val)) = (neg, sl, s)"
    by (cases "optional_sign (dropWhile isspace (c_str val))") auto
  show ?thesis
  proof (cases "subject_sequence s")
    case None
    with sign show ?thesis
      by (simp add: fp_strto_def begins_with_number_def subject_sequence_None_iff [symmetric])
  next
    case (Some r)
    obtain p n where r: "r = (p, n)" by (cases r) auto
    from Some r subject_sequence_consumed have "0 < n" by blast
    moreover from Some have "numeric_start s"
      using subject_sequence_None_iff [of s] by auto
    ultimately show ?thesis
      using sign Some r by (simp add: fp_strto_def begins_with_number_def)
  qed
qed

lemma digit_char_isdigit: "d < 10 \<Longrightarrow> isdigit (digit_char d)"
proof -
  assume "d < 10"
  then have "d = 0 \<or> d = 1 \<or> d = 2 \<or> d = 3 \<or> d = 4 \<or> d = 5 \<or> d = 6 \<or> d = 7 \<or> d = 8 \<or> d = 9"
    by arith
  then show ?thesis
    by (auto simp: digit_char_def isdigit_def)
qed

lemma decimal_digits: "\<forall>c\<in>set (decimal n). isdigit c"
proof (induction n rule: decimal.induct)
  case (1 n)
  show ?case
  proof (cases "n < 10")
    case True
    then show ?thesis
      by (simp add: decimal.simps [of n] digit_char_isdigit)
  next
    case False
    with "1.IH" show ?thesis
      by (simp add: decimal.simps [of n] digit_char_isdigit)
  qed
qed

lemma decimal_not_Nil: "decimal n \<noteq> []"
  by (simp add: decimal.simps [of n])

lemma fixed6_shape: "\<exists>c cs. fixed6 n = c # cs \<and> isdigit c \<and> (\<forall>x\<in>set cs. isdigit x \<or> x = CHR ''.'')"
proof -
  obtain c cs where d: "decimal (n div 10 ^ 6) = c # cs"
    using decimal_not_Nil [of "n div 10 ^ 6"] by (cases "decimal (n div 10 ^ 6)") auto
  with decimal_digits [of "n div 10 ^ 6"] have "isdigit c" "\<forall>x\<in>set cs. isdigit x"
    by auto
  then show ?thesis
    unfolding fixed6_def d
    by (auto simp: digit_char_isdigit)
qed

lemma isdigit_chars:
  "isdigit c \<Longrightarrow> c \<noteq> CHR 0x00 \<and> \<not> isspace c \<and> c \<noteq> CHR ''-'' \<and> c \<noteq> CHR ''+''"
  by (auto simp: isdigit_def isspace_def)

lemma words_begin_with_number:
  "begins_with_number ''nan''" "begins_with_number ''-nan''"
  "begins_with_number ''inf''" "begins_with_number ''-inf''"
  by (simp_all add: begins_with_number_def c_str_def isspace_def optional_sign_def
      numeric_start_def)

lemma digits_begin_with_number:
  assumes c: "isdigit c" and cs: "\<forall>x\<in>set cs. isdigit x \<or> x = CHR ''.''"
  shows "begins_with_number (c # cs)" "begins_with_number (CHR ''-'' # c # cs)"
proof -
  have "\<forall>x\<in>set (c # cs). x \<noteq> CHR 0x00"
  proof
    fix x assume "x \<in> set (c # cs)"
    with c cs have "isdigit x \<or> x = CHR ''.''" by auto
    then show "x \<noteq> CHR 0x00" using isdigit_chars [of x] by auto
  qed
  then have nul: "c_str (c # cs) = c # cs" "c_str (CHR ''-'' # c # cs) = CHR ''-'' # c # cs"
    unfolding c_str_def by (simp_all add: takeWhile_eq_all_conv)
  from isdigit_chars [OF c]
  have first: "\<not> isspace c" "c \<noteq> CHR ''-''" "c \<noteq> CHR ''+''" by simp_all
  have start: "numeric_start (c # cs)"
    using c by (simp add: numeric_start_def)
  have "optional_sign (dropWhile isspace (c # cs)) = (False, 0, c # cs)"
    using first by (simp add: optional_sign_def)
  with start show "begins_with_number (c # cs)"
    by (simp add: begins_with_number_def nul)
  have "\<not> isspace CHR ''-''" by (simp add: isspace_def)
  then have "optional_sign (dropWhile isspace (CHR ''-'' # c # cs)) = (True, 1, c # cs)"
    by (simp add: optional_sign_def)
  with start show "begins_with_number (CHR ''-'' # c # cs)"
    by (simp add: begins_with_number_def nul)
qed

lemma fp_to_string_begins_with_number: "begins_with_number (fp_to_string ew fw b)"
proof (cases "fp_isnan ew fw b \<or> fp_isinf ew fw b")
  case True
  then show ?thesis
    unfolding fp_to_string_def using words_begin_with_number by auto
next
  case False
  define n where "n = (let m = fp_significand ew fw b; e = fp_scale ew fw b
         in if 0 \<le> e then m * 10 ^ 6 * 2 ^ nat e
            else round_half_even (m * 10 ^ 6) (2 ^ nat (- e)))"
  from fixed6_shape [of n] obtain c cs where
    shape: "fixed6 n = c # cs" "isdigit c" "\<forall>x\<in>set cs. isdigit x \<or> x = CHR ''.''"
    by blast
  have "fp_to_string ew fw b = (if fp_negative ew fw b then ''-'' else []) @ fixed6 n"
    using False by (simp add: fp_to_string_def n_def Let_def)
  then show ?thesis
    using digits_begin_with_number [OF shape(2,3)] shape(1) by simp
qed

section \<open>Lemmas about the codec and the two loops\<close>

lemma string_type_sel [simp]:
  "ToString_T string_type = ToString_string"
  "ToStringOptional_T string_type = ToStringOptional_string"
  "FromString_T string_type = FromString_string"
  "FromStringOptional_T string_type = FromStringOptional_string"
  "Data_T string_type = Data_string"
  "MutableData_T string_type = String_Data"
  by (simp_all add: string_type_def)

lemma transform_FromString_string: "transform FromString_string xs = Inr xs"
  by (induction xs) (simp_all add: FromString_string_def)

lemma transform_FromStringOptional_string:
  "transform FromStringOptional_string xs = Inr (map absent_to_empty xs)"
  by (induction xs) (simp_all add: FromStringOptional_string_def absent_to_empty_def split: option.splits)

lemma write_rows_Cons_Inr:
  assumes "write_rows tps T K C (out # rest) (a, t, k, d) = Inr res"
  shows "int (length (get2 out)) = K \<and> int (length (get3 out)) = C \<and>
         (\<exists>ks ds. transform (FromString_T T) (get2 out) = Inr ks \<and>
                  transform (FromStringOptional_T T) (get3 out) = Inr ds \<and>
                  write_rows tps T K C rest
                    (a @ [get0 out], t @ [ToSecs tps (get1 out)], k @ ks, d @ ds) = Inr res)"
  using assms by (simp add: Let_def split: if_splits sum.splits)

lemma write_rows_arity:
  "write_rows tps T K C rows w = Inr res \<Longrightarrow>
   \<forall>out\<in>set rows. int (length (get2 out)) = K \<and> int (length (get3 out)) = C"
proof (induction rows arbitrary: w)
  case Nil
  then show ?case by simp
next
  case (Cons out rest)
  obtain a t k d where w: "w = (a, t, k, d)" by (cases w) auto
  from Cons.prems [unfolded w] write_rows_Cons_Inr
  obtain ks ds where here: "int (length (get2 out)) = K" "int (length (get3 out)) = C"
    and rest: "write_rows tps T K C rest
                 (a @ [get0 out], t @ [ToSecs tps (get1 out)], k @ ks, d @ ds) = Inr res"
    by blast
  from Cons.IH [OF rest] here show ?case by simp
qed

lemma transform_Inr_length: "transform f xs = Inr ys \<Longrightarrow> length ys = length xs"
  by (induction xs arbitrary: ys) (auto split: sum.splits)

lemma transform_Inr_nth:
  "transform f xs = Inr ys \<Longrightarrow> i < length xs \<Longrightarrow> f (xs ! i) = Inr (ys ! i)"
proof (induction xs arbitrary: ys i)
  case Nil
  then show ?case by simp
next
  case (Cons x xs)
  then show ?case by (cases i) (auto split: sum.splits)
qed

text \<open>What a successful output loop has written, for any scalar type.\<close>

lemma write_rows_Inr:
  "write_rows tps T K C rows (a, t, k, d) = Inr (a', t', k', d') \<Longrightarrow>
   a' = a @ map get0 rows \<and> t' = t @ map (\<lambda>out. ToSecs tps (get1 out)) rows \<and>
   (\<exists>kss dss. length kss = length rows \<and> length dss = length rows \<and>
      (\<forall>i<length rows. transform (FromString_T T) (get2 (rows ! i)) = Inr (kss ! i) \<and>
                       transform (FromStringOptional_T T) (get3 (rows ! i)) = Inr (dss ! i)) \<and>
      k' = k @ concat kss \<and> d' = d @ concat dss)"
proof (induction rows arbitrary: a t k d)
  case Nil
  then show ?case by simp
next
  case (Cons out rest)
  from write_rows_Cons_Inr [OF Cons.prems]
  obtain ks ds where ks: "transform (FromString_T T) (get2 out) = Inr ks"
    and ds: "transform (FromStringOptional_T T) (get3 out) = Inr ds"
    and rest: "write_rows tps T K C rest
                 (a @ [get0 out], t @ [ToSecs tps (get1 out)], k @ ks, d @ ds) = Inr (a', t', k', d')"
    by blast
  from Cons.IH [OF rest]
  obtain kss dss where a': "a' = (a @ [get0 out]) @ map get0 rest"
    and t': "t' = (t @ [ToSecs tps (get1 out)]) @ map (\<lambda>out. ToSecs tps (get1 out)) rest"
    and len: "length kss = length rest" "length dss = length rest"
    and each: "\<forall>i<length rest. transform (FromString_T T) (get2 (rest ! i)) = Inr (kss ! i) \<and>
                       transform (FromStringOptional_T T) (get3 (rest ! i)) = Inr (dss ! i)"
    and k': "k' = (k @ ks) @ concat kss" and d': "d' = (d @ ds) @ concat dss"
    by blast
  have each': "\<forall>i<length (out # rest).
      transform (FromString_T T) (get2 ((out # rest) ! i)) = Inr ((ks # kss) ! i) \<and>
      transform (FromStringOptional_T T) (get3 ((out # rest) ! i)) = Inr ((ds # dss) ! i)"
  proof (intro allI impI)
    fix i assume "i < length (out # rest)"
    then show "transform (FromString_T T) (get2 ((out # rest) ! i)) = Inr ((ks # kss) ! i) \<and>
      transform (FromStringOptional_T T) (get3 ((out # rest) ! i)) = Inr ((ds # dss) ! i)"
      using ks ds each by (cases i) auto
  qed
  show ?case
    apply (rule conjI) apply (simp add: a')
    apply (rule conjI) apply (simp add: t')
    apply (rule exI [of _ "ks # kss"], rule exI [of _ "ds # dss"])
    using len each' k' d' by simp
qed

lemma write_rows_string:
  "\<forall>out\<in>set rows. int (length (get2 out)) = K \<and> int (length (get3 out)) = C \<Longrightarrow>
   write_rows tps string_type K C rows (a, t, k, d) =
     Inr (a @ map get0 rows, t @ map (\<lambda>out. ToSecs tps (get1 out)) rows,
          k @ concat (map get2 rows), d @ concat (map (\<lambda>out. map absent_to_empty (get3 out)) rows))"
proof (induction rows arbitrary: a t k d)
  case Nil
  then show ?case by simp
next
  case (Cons out rest)
  then show ?case
    by (simp add: string_type_def transform_FromString_string transform_FromStringOptional_string)
qed

text \<open>The output loop on a buffer whose first row of wrong arity is \<open>bad\<close>.\<close>

lemma write_rows_string_bad:
  assumes good: "\<forall>out\<in>set good. int (length (get2 out)) = K \<and> int (length (get3 out)) = C"
    and bad: "int (length (get2 bad)) \<noteq> K \<or> int (length (get3 bad)) \<noteq> C"
  shows "write_rows tps string_type K C (good @ bad # rest) (a, t, k, d) =
           Inl (if int (length (get2 bad)) \<noteq> K then Enforce_Keys (length (get2 bad)) K
                else Enforce_Columns (length (get3 bad)) C)"
  using good
proof (induction good arbitrary: a t k d)
  case Nil
  with bad show ?case by (auto simp: Let_def)
next
  case (Cons out good)
  then show ?case
    by (simp add: string_type_def transform_FromString_string transform_FromStringOptional_string)
qed

lemma write_rows_bad_fails:
  "\<exists>out\<in>set rows. int (length (get2 out)) \<noteq> K \<or> int (length (get3 out)) \<noteq> C \<Longrightarrow>
   \<exists>e. write_rows tps T K C rows w = Inl e"
  using write_rows_arity [of tps T K C rows w]
  by (cases "write_rows tps T K C rows w") auto

lemma for_each_row_execute_each:
  "for_each_row transformer row_at rows row st output_rows =
     (case execute_each transformer st (map row_at [row..rows - 1]) of
        Inl e \<Rightarrow> Inl e
      | Inr (st', emitted) \<Rightarrow> Inr (st', output_rows @ emitted))"
proof (induction transformer row_at rows row st output_rows rule: for_each_row.induct)
  case (1 transformer row_at rows row st output_rows)
  show ?case
  proof (cases "row < rows")
    case False
    then show ?thesis by (simp add: for_each_row.simps [of _ _ rows row])
  next
    case True
    then have range: "[row..rows - 1] = row # [row + 1..rows - 1]"
      by (intro upto_rec1) simp
    show ?thesis
    proof (cases "execute transformer st (row_at row)")
      case (Inl msg)
      with True range show ?thesis
        by (simp add: for_each_row.simps [of _ _ rows row])
    next
      case (Inr r)
      obtain st' emitted where r: "r = (st', emitted)" by (cases r) auto
      from "1.IH" [OF True Inr [unfolded r] refl]
      show ?thesis using True range Inr r
        by (simp add: for_each_row.simps [of _ _ rows row] split: sum.splits)
    qed
  qed
qed

lemma feed_execute_each:
  "feed transformer row_at rows st0 =
     (case execute_each transformer st0 (map row_at [0..rows - 1]) of
        Inl e \<Rightarrow> Inl e
      | Inr (st1, emitted) \<Rightarrow>
          (case flush transformer st1 of
             Inl msg \<Rightarrow> Inl (Engine_Exception msg)
           | Inr (st2, flushed) \<Rightarrow> Inr (st2, emitted @ flushed)))"
  by (simp add: feed_def for_each_row_execute_each split: sum.splits)

lemma execute_each_recorder:
  "execute_each recorder calls rs = Inr (calls @ map Execute_Call rs, [])"
  by (induction rs arbitrary: calls) (simp_all add: recorder_def)

lemma feed_recorder:
  "feed recorder row_at rows [] = Inr (map (\<lambda>row. Execute_Call (row_at row)) [0..rows - 1] @ [Flush_Call], [])"
  by (simp add: feed_execute_each execute_each_recorder comp_def) (simp add: recorder_def)

lemma concat_slice:
  "\<forall>xs\<in>set xss. length xs = K \<Longrightarrow> i < length xss \<Longrightarrow>
   take K (drop (i * K) (concat xss)) = xss ! i"
proof (induction xss arbitrary: i)
  case Nil
  then show ?case by simp
next
  case (Cons xs xss)
  show ?case
  proof (cases i)
    case 0
    with Cons.prems show ?thesis by simp
  next
    case (Suc j)
    with Cons.prems have "take K (drop (j * K) (concat xss)) = xss ! j"
      by (intro Cons.IH) auto
    with Suc Cons.prems show ?thesis by (simp add: add.commute)
  qed
qed

lemma Compute_valid:
  "NumDimensions (Shape (Input1 ctx)) = 1 \<Longrightarrow>
   NumDimensions (Shape (Input2 ctx)) = 2 \<Longrightarrow> Shape (Input2 ctx) ! 0 = Shape (Input1 ctx) ! 0 \<Longrightarrow>
   NumDimensions (Shape (Input3 ctx)) = 2 \<Longrightarrow> Shape (Input3 ctx) ! 0 = Shape (Input1 ctx) ! 0 \<Longrightarrow>
   GetElementType (Input2 ctx) = GetElementType (Input3 ctx) \<Longrightarrow>
   Compute tps transformer ctx =
     TimeSeriesImputerTransformerImpl tps string_type transformer ctx (Shape (Input1 ctx) ! 0)"
  by (simp add: Compute_def CheckBatches_def Let_def)

lemma feed_errors:
  "feed transformer row_at rows st0 = Inl e \<Longrightarrow> \<exists>msg. e = Engine_Exception msg"
proof -
  have each: "execute_each transformer st rs = Inl e \<Longrightarrow> \<exists>msg. e = Engine_Exception msg"
    for st rs
    by (induction rs arbitrary: st) (auto split: sum.splits)
  assume "feed transformer row_at rows st0 = Inl e"
  then show ?thesis
    unfolding feed_execute_each using each
    by (auto split: sum.splits)
qed

lemma collect_output_rows_string_errors:
  "collect_output_rows tps string_type transformer ctx K C rows = Inl e \<Longrightarrow>
   e = Type_Mismatch \<or> (\<exists>msg. e = Engine_Exception msg)"
  unfolding collect_output_rows_def Let_def
  by (auto split: sum.splits tensor_data.splits dest: feed_errors)

lemma write_rows_string_errors:
  "write_rows tps string_type K C rows w = Inl e \<Longrightarrow>
   (\<exists>n. e = Enforce_Keys n K) \<or> (\<exists>n. e = Enforce_Columns n C)"
proof (induction rows arbitrary: w)
  case Nil
  then show ?case by simp
next
  case (Cons out rest)
  obtain a t k d where w: "w = (a, t, k, d)" by (cases w) auto
  show ?case
  proof (cases "int (length (get2 out)) = K \<and> int (length (get3 out)) = C")
    case True
    with Cons.prems have
      "write_rows tps string_type K C rest
         (a @ [get0 out], t @ [ToSecs tps (get1 out)], k @ get2 out,
          d @ map absent_to_empty (get3 out)) = Inl e"
      unfolding w
      by (simp add: Let_def transform_FromString_string transform_FromStringOptional_string)
    then show ?thesis by (rule Cons.IH)
  next
    case False
    with Cons.prems show ?thesis
      unfolding w by (auto simp: Let_def split: if_splits)
  qed
qed

lemma write_outputs_string_errors:
  "write_outputs tps string_type K C rows = Inl e \<Longrightarrow>
   (\<exists>n. e = Enforce_Keys n K) \<or> (\<exists>n. e = Enforce_Columns n C)"
  unfolding write_outputs_def Let_def
  by (auto split: sum.splits dest: write_rows_string_errors)

lemma Impl_Inr:
  "TimeSeriesImputerTransformerImpl tps T transformer ctx rows = Inr outs \<Longrightarrow>
   \<exists>st output_rows.
     collect_output_rows tps T transformer ctx
       (Shape (Input2 ctx) ! 1) (Shape (Input3 ctx) ! 1) rows = Inr (st, output_rows) \<and>
     write_outputs tps T (Shape (Input2 ctx) ! 1) (Shape (Input3 ctx) ! 1) output_rows = Inr outs"
  unfolding TimeSeriesImputerTransformerImpl_def Let_def
  by (auto split: sum.splits)

lemma Impl_string_errors:
  assumes "TimeSeriesImputerTransformerImpl tps string_type transformer ctx rows = Inl e"
  shows "e = Type_Mismatch \<or> (\<exists>msg. e = Engine_Exception msg) \<or>
         (\<exists>n k. e = Enforce_Keys n k) \<or> (\<exists>n c. e = Enforce_Columns n c)"
  using assms
  unfolding TimeSeriesImputerTransformerImpl_def Let_def
  by (auto split: sum.splits dest: collect_output_rows_string_errors write_outputs_string_errors)

lemma Compute_errors:
  assumes "Compute tps transformer ctx = Inl e"
  shows "(\<exists>code msg. e = Status_Error code msg) \<or> e = Type_Mismatch \<or>
         (\<exists>msg. e = Engine_Exception msg) \<or>
         (\<exists>n k. e = Enforce_Keys n k) \<or> (\<exists>n c. e = Enforce_Columns n c)"
  using assms
  unfolding Compute_def Let_def CheckBatches_def
  by (auto split: if_splits dest: Impl_string_errors)

lemma collect_output_rows_Inr:
  assumes "collect_output_rows tps T transformer ctx K C rows = Inr (st, output_rows)"
  shows "\<exists>state_data st0 times_data keys_data data_data st1 emitted flushed.
           Data_uint8 (Input0 ctx) = Inr state_data \<and>
           construct transformer (take (nat (Size (Shape (Input0 ctx)))) state_data) = Inr st0 \<and>
           Data_int64 (Input1 ctx) = Inr times_data \<and>
           Data_T T (Input2 ctx) = Inr keys_data \<and>
           Data_T T (Input3 ctx) = Inr data_data \<and>
           execute_each transformer st0
             (map (tuple_row tps T times_data keys_data data_data K C) [0..rows - 1])
             = Inr (st1, emitted) \<and>
           flush transformer st1 = Inr (st, flushed) \<and>
           output_rows = emitted @ flushed"
  using assms
  unfolding collect_output_rows_def Let_def feed_execute_each
  by (auto split: sum.splits)

lemma write_outputs_Inr_arity:
  "write_outputs tps T K C output_rows = Inr outs \<Longrightarrow> list_all (arity_ok K C) output_rows"
  unfolding write_outputs_def Let_def
  by (auto simp: list_all_iff arity_ok_def split: sum.splits dest!: write_rows_arity)

lemma write_rows_first_bad:
  assumes good: "list_all (arity_ok K C) good"
    and decodes: "list_all (\<lambda>out. (\<exists>ks. transform (FromString_T T) (get2 out) = Inr ks) \<and>
                    (\<exists>ds. transform (FromStringOptional_T T) (get3 out) = Inr ds)) good"
    and bad: "\<not> arity_ok K C bad"
  shows "write_rows tps T K C (good @ bad # rest) (a, t, k, d) =
           Inl (if int (length (get2 bad)) = K then Enforce_Columns (length (get3 bad)) C
                else Enforce_Keys (length (get2 bad)) K)"
  using good decodes
proof (induction good arbitrary: a t k d)
  case Nil
  with bad show ?case by (auto simp: Let_def arity_ok_def)
next
  case (Cons out good)
  from Cons.prems obtain ks ds where
    "transform (FromString_T T) (get2 out) = Inr ks"
    "transform (FromStringOptional_T T) (get3 out) = Inr ds"
    by auto
  moreover from Cons.prems have "arity_ok K C out" by simp
  ultimately show ?case
    using Cons.IH Cons.prems by (simp add: arity_ok_def Let_def)
qed

lemma write_outputs_first_bad:
  assumes "list_all (arity_ok K C) good"
    and "list_all (\<lambda>out. (\<exists>ks. transform (FromString_T T) (get2 out) = Inr ks) \<and>
                    (\<exists>ds. transform (FromStringOptional_T T) (get3 out) = Inr ds)) good"
    and "\<not> arity_ok K C bad"
  shows "write_outputs tps T K C (good @ bad # rest) =
           Inl (if int (length (get2 bad)) = K then Enforce_Columns (length (get3 bad)) C
                else Enforce_Keys (length (get2 bad)) K)"
  unfolding write_outputs_def Let_def
  by (simp add: write_rows_first_bad [OF assms])

lemma write_outputs_string_bad:
  assumes "\<not> list_all (arity_ok K C) output_rows"
  shows "\<exists>n. write_outputs tps string_type K C output_rows = Inl (Enforce_Keys n K) \<or>
             write_outputs tps string_type K C output_rows = Inl (Enforce_Columns n C)"
proof (cases "write_outputs tps string_type K C output_rows")
  case (Inl e)
  from write_outputs_string_errors [OF Inl] show ?thesis using Inl by auto
next
  case (Inr outs)
  from write_outputs_Inr_arity [OF Inr] assms show ?thesis by simp
qed

lemma collect_keys_slice:
  assumes "list_all (arity_ok K C) output_rows" and "i < length output_rows"
  shows "take (nat K) (drop (i * nat K) (concat (map get2 output_rows))) = get2 (output_rows ! i)"
    and "take (nat C) (drop (i * nat C)
           (concat (map (\<lambda>out. map absent_to_empty (get3 out)) output_rows))) =
         map absent_to_empty (get3 (output_rows ! i))"
proof -
  from assms(1) have k: "\<forall>xs\<in>set (map get2 output_rows). length xs = nat K"
    and c: "\<forall>xs\<in>set (map (\<lambda>out. map absent_to_empty (get3 out)) output_rows). length xs = nat C"
    by (auto simp: list_all_iff arity_ok_def)
  from concat_slice [OF k] assms(2)
  show "take (nat K) (drop (i * nat K) (concat (map get2 output_rows))) = get2 (output_rows ! i)"
    by simp
  from concat_slice [OF c] assms(2)
  show "take (nat C) (drop (i * nat C)
           (concat (map (\<lambda>out. map absent_to_empty (get3 out)) output_rows))) =
         map absent_to_empty (get3 (output_rows ! i))"
    by simp
qed

lemma write_outputs_string_Inr:
  assumes "write_outputs tps string_type K C output_rows = Inr outs"
  shows "outs =
      \<lparr> Output0 = \<lparr> Shape = [int (length output_rows)],
                    payload = Bool_Data (map get0 output_rows) \<rparr>,
        Output1 = \<lparr> Shape = [int (length output_rows)],
                    payload = Int64_Data (map (\<lambda>out. ToSecs tps (get1 out)) output_rows) \<rparr>,
        Output2 = \<lparr> Shape = [int (length output_rows), K],
                    payload = String_Data (concat (map get2 output_rows)) \<rparr>,
        Output3 = \<lparr> Shape = [int (length output_rows), C],
                    payload = String_Data
                      (concat (map (\<lambda>out. map absent_to_empty (get3 out)) output_rows)) \<rparr> \<rparr>"
proof -
  from write_outputs_Inr_arity [OF assms]
  have "\<forall>out\<in>set output_rows. int (length (get2 out)) = K \<and> int (length (get3 out)) = C"
    by (simp add: list_all_iff arity_ok_def)
  from write_rows_string [OF this, of tps "[]" "[]" "[]" "[]"] assms
  show ?thesis
    by (simp add: write_outputs_def Let_def)
qed

text \<open>The definitions a run of the adapter on a concrete batch unfolds.\<close>

lemmas adapter_defs =
  Compute_def CheckBatches_def NumDimensions_def GetElementType_def
  TimeSeriesImputerTransformerImpl_def collect_output_rows_def Size_def
  feed_def for_each_row.simps tuple_row_def ToTimePoint_def ToSecs_def write_outputs_def Let_def
  get0_def get1_def get2_def get3_def arity_ok_def wrap64_def
  ToString_string_def ToStringOptional_string_def FromString_string_def
  FromStringOptional_string_def signed_divide_int_def

lemmas imputer_defs =
  spec_imputer_def imputer_execute_def imputer_flush_def release_def ready_def
  in_time_order_def gap_times_def upto.simps

section \<open>Lemmas about the numeric codec\<close>

lemma float_type_sel [simp]:
  "ToString_T float_type = ToString to_string_float"
  "ToStringOptional_T float_type = ToStringOptional isnan_float to_string_float"
  "FromString_T float_type = FromString_float"
  "FromStringOptional_T float_type = FromStringOptional FromString_float quiet_NaN_float"
  "Data_T float_type = Data_float"
  "MutableData_T float_type = Float_Data"
  by (simp_all add: float_type_def)

lemma double_type_sel [simp]:
  "ToString_T double_type = ToString to_string_double"
  "ToStringOptional_T double_type = ToStringOptional isnan_double to_string_double"
  "FromString_T double_type = FromString_double"
  "FromStringOptional_T double_type = FromStringOptional FromString_double quiet_NaN_double"
  "Data_T double_type = Data_double"
  "MutableData_T double_type = Double_Data"
  by (simp_all add: double_type_def)

lemma FromString_float_cases:
  "FromString_float val =
     (if begins_with_number val then Inr (fst (strtof (c_str val)))
      else Inl (Not_Convertible ''float'' val))"
proof -
  obtain b n where parse: "fp_strto 8 23 (c_str val) = (b, n)"
    by (cases "fp_strto 8 23 (c_str val)") auto
  with fp_strto_consumed_iff [of 8 23 val] have "n = 0 \<longleftrightarrow> \<not> begins_with_number val"
    by simp
  with parse show ?thesis
    by (simp add: FromString_float_def strtof_def Let_def)
qed

lemma FromString_double_cases:
  "FromString_double val =
     (if begins_with_number val then Inr (fst (strtod (c_str val)))
      else Inl (Not_Convertible ''double'' val))"
proof -
  obtain b n where parse: "fp_strto 11 52 (c_str val) = (b, n)"
    by (cases "fp_strto 11 52 (c_str val)") auto
  with fp_strto_consumed_iff [of 11 52 val] have "n = 0 \<longleftrightarrow> \<not> begins_with_number val"
    by simp
  with parse show ?thesis
    by (simp add: FromString_double_def strtod_def Let_def)
qed

lemma quiet_NaN_is_nan: "isnan_float quiet_NaN_float" "isnan_double quiet_NaN_double"
  by (simp_all add: isnan_float_def quiet_NaN_float_def isnan_double_def quiet_NaN_double_def
      fp_quiet_NaN_def fp_isnan_def fp_exponent_def fp_fraction_def)








lemma FromString_float_to_string:
  "FromString_float (to_string_float x) = Inr (fst (strtof (c_str (to_string_float x))))"
  using fp_to_string_begins_with_number [of 8 23 "unat x"]
  by (simp add: FromString_float_cases to_string_float_def)

lemma FromString_double_to_string:
  "FromString_double (to_string_double y) = Inr (fst (strtod (c_str (to_string_double y))))"
  using fp_to_string_begins_with_number [of 11 52 "unat y"]
  by (simp add: FromString_double_cases to_string_double_def)








section \<open>Lemmas about the imputer of the design\<close>




lemma spec_imputer_sel [simp]:
  "execute (spec_imputer cadence) = imputer_execute cadence"
  "flush (spec_imputer cadence) = imputer_flush"
  "construct (spec_imputer cadence) bytes = Inr \<lparr> groups = [], held = [] \<rparr>"
  by (simp_all add: spec_imputer_def)

lemma in_time_order_sorted [simp]:
  "sorted (map (\<lambda>out. ticks (get1 out)) (in_time_order outs))"
  "set (in_time_order outs) = set outs"
  by (simp_all add: in_time_order_def)







section \<open>Input validation\<close>

text \<open>
  C1. \<open>Compute\<close> validates its inputs before anything else: unless the timestamps are
  one-dimensional, the key matrix and the data matrix are two-dimensional with as many
  rows as there are timestamps, and keys and data have the same element type, \<open>Compute\<close>
  returns a \<open>Status\<close> that is not OK and no output. The status is the same whatever
  the imputer would do, also one whose construction from the state image fails: it is
  decided before the imputer is constructed and before any row is fed to it.
\<close>

theorem Compute_rejects_malformed_inputs:
  "\<not> (NumDimensions (Shape (Input1 ctx)) = 1 \<and>
      NumDimensions (Shape (Input2 ctx)) = 2 \<and> Shape (Input2 ctx) ! 0 = Shape (Input1 ctx) ! 0 \<and>
      NumDimensions (Shape (Input3 ctx)) = 2 \<and> Shape (Input3 ctx) ! 0 = Shape (Input1 ctx) ! 0 \<and>
      GetElementType (Input2 ctx) = GetElementType (Input3 ctx)) \<Longrightarrow>
   \<exists>code msg. \<forall>tps (transformer :: 's Transformer).
      Compute tps transformer ctx = Inl (Status_Error code msg)"
  by (auto simp: Compute_def CheckBatches_def Let_def)

text \<open>
  The hypothesis at a batch whose timestamps tensor is two-dimensional, and at one whose
  keys are strings and whose data are floats.
\<close>

theorem Compute_rejects_malformed_inputs_witness:
  "\<not> (NumDimensions [2, 1] = 1) \<and>
   (\<exists>code msg. \<forall>tps (transformer :: unit Transformer).
      Compute tps transformer
        \<lparr> Input0 = \<lparr> Shape = [0], payload = Uint8_Data [] \<rparr>,
          Input1 = \<lparr> Shape = [2, 1], payload = Int64_Data [0, 2] \<rparr>,
          Input2 = \<lparr> Shape = [2, 1], payload = String_Data [''A'', ''A''] \<rparr>,
          Input3 = \<lparr> Shape = [2, 1], payload = String_Data [''5.0'', []] \<rparr> \<rparr>
      = Inl (Status_Error code msg)) \<and>
   GetElementType \<lparr> Shape = [2, 1], payload = String_Data [''A'', ''A''] \<rparr> = STRING \<and>
   GetElementType \<lparr> Shape = [2, 1], payload = Float_Data [0, 0] \<rparr> = FLOAT \<and>
   (\<exists>code msg. \<forall>tps (transformer :: unit Transformer).
      Compute tps transformer
        \<lparr> Input0 = \<lparr> Shape = [0], payload = Uint8_Data [] \<rparr>,
          Input1 = \<lparr> Shape = [2], payload = Int64_Data [0, 2] \<rparr>,
          Input2 = \<lparr> Shape = [2, 1], payload = String_Data [''A'', ''A''] \<rparr>,
          Input3 = \<lparr> Shape = [2, 1], payload = Float_Data [0, 0] \<rparr> \<rparr>
      = Inl (Status_Error code msg))"
proof -
  have dims: "\<not> (NumDimensions [2, 1] = 1)"
    by (simp add: NumDimensions_def)
  have types: "GetElementType \<lparr> Shape = [2, 1], payload = String_Data [''A'', ''A''] \<rparr> = STRING"
    "GetElementType \<lparr> Shape = [2, 1], payload = Float_Data [0, 0] \<rparr> = FLOAT"
    by (simp_all add: GetElementType_def)
  note first = Compute_rejects_malformed_inputs
    [of "\<lparr> Input0 = \<lparr> Shape = [0], payload = Uint8_Data [] \<rparr>,
          Input1 = \<lparr> Shape = [2, 1], payload = Int64_Data [0, 2] \<rparr>,
          Input2 = \<lparr> Shape = [2, 1], payload = String_Data [''A'', ''A''] \<rparr>,
          Input3 = \<lparr> Shape = [2, 1], payload = String_Data [''5.0'', []] \<rparr> \<rparr>",
      where ?'s = unit]
  note second = Compute_rejects_malformed_inputs
    [of "\<lparr> Input0 = \<lparr> Shape = [0], payload = Uint8_Data [] \<rparr>,
          Input1 = \<lparr> Shape = [2], payload = Int64_Data [0, 2] \<rparr>,
          Input2 = \<lparr> Shape = [2, 1], payload = String_Data [''A'', ''A''] \<rparr>,
          Input3 = \<lparr> Shape = [2, 1], payload = Float_Data [0, 0] \<rparr> \<rparr>",
      where ?'s = unit]
  from dims types first second show ?thesis
    by simp
qed

section \<open>The registered kernel never fails to convert\<close>

text \<open>
  C10. \<open>Compute\<close> always runs the \<open>std::string\<close> instance of the adapter. Its key decoder
  and its data decoder are total (the identity on a present string, the empty string for
  an absent one), so whatever the inputs and the imputer, \<open>Compute\<close> never ends with the
  exception of a failed conversion.
\<close>

theorem Compute_never_fails_to_convert:
  "Compute tps transformer ctx \<noteq> Inl (Not_Convertible ty val) \<and>
   FromString_T string_type s = Inr s \<and>
   FromStringOptional_T string_type (Some s) = Inr s \<and>
   FromStringOptional_T string_type None = Inr []"
proof -
  have "Compute tps transformer ctx \<noteq> Inl (Not_Convertible ty val)"
    using Compute_errors [of tps transformer ctx "Not_Convertible ty val"] by auto
  then show ?thesis
    by (simp add: FromString_string_def FromStringOptional_string_def)
qed

section \<open>The arity check of the output loop\<close>

text \<open>
  C2. Every emitted row is checked before it is encoded: its number of keys against
  \<open>keys_per_row\<close>, its number of values against \<open>columns\<close>. If the call succeeds, every row
  of the buffer has both arities, so every row in the outputs has. If the buffer's first
  row of wrong arity comes after rows that were written, the call ends with the
  \<open>ORT_ENFORCE\<close> failure of that row, whether or not the row's own strings could be
  converted: the check comes first. For \<open>std::string\<close>, where every row converts, a
  buffer with a row of wrong arity always ends the call with one of the two failures.
\<close>

theorem Impl_checks_arity:
  "(TimeSeriesImputerTransformerImpl tps T transformer ctx rows = Inr outs \<longrightarrow>
      (\<exists>st output_rows.
         collect_output_rows tps T transformer ctx
           (Shape (Input2 ctx) ! 1) (Shape (Input3 ctx) ! 1) rows = Inr (st, output_rows) \<and>
         list_all (arity_ok (Shape (Input2 ctx) ! 1) (Shape (Input3 ctx) ! 1)) output_rows)) \<and>
   (collect_output_rows tps T transformer ctx
        (Shape (Input2 ctx) ! 1) (Shape (Input3 ctx) ! 1) rows = Inr (st', good @ bad # rest) \<and>
    list_all (arity_ok (Shape (Input2 ctx) ! 1) (Shape (Input3 ctx) ! 1)) good \<and>
    list_all (\<lambda>out. (\<exists>ks. transform (FromString_T T) (get2 out) = Inr ks) \<and>
                    (\<exists>ds. transform (FromStringOptional_T T) (get3 out) = Inr ds)) good \<and>
    \<not> arity_ok (Shape (Input2 ctx) ! 1) (Shape (Input3 ctx) ! 1) bad \<longrightarrow>
      TimeSeriesImputerTransformerImpl tps T transformer ctx rows =
        Inl (if int (length (get2 bad)) = Shape (Input2 ctx) ! 1
             then Enforce_Columns (length (get3 bad)) (Shape (Input3 ctx) ! 1)
             else Enforce_Keys (length (get2 bad)) (Shape (Input2 ctx) ! 1))) \<and>
   (collect_output_rows tps string_type transformer ctx
        (Shape (Input2 ctx) ! 1) (Shape (Input3 ctx) ! 1) rows = Inr (st'', buffer) \<and>
    \<not> list_all (arity_ok (Shape (Input2 ctx) ! 1) (Shape (Input3 ctx) ! 1)) buffer \<longrightarrow>
      (\<exists>n. TimeSeriesImputerTransformerImpl tps string_type transformer ctx rows =
              Inl (Enforce_Keys n (Shape (Input2 ctx) ! 1)) \<or>
           TimeSeriesImputerTransformerImpl tps string_type transformer ctx rows =
              Inl (Enforce_Columns n (Shape (Input3 ctx) ! 1))))"
proof (intro conjI impI)
  assume "TimeSeriesImputerTransformerImpl tps T transformer ctx rows = Inr outs"
  from Impl_Inr [OF this] write_outputs_Inr_arity
  show "\<exists>st output_rows.
         collect_output_rows tps T transformer ctx
           (Shape (Input2 ctx) ! 1) (Shape (Input3 ctx) ! 1) rows = Inr (st, output_rows) \<and>
         list_all (arity_ok (Shape (Input2 ctx) ! 1) (Shape (Input3 ctx) ! 1)) output_rows"
    by blast
next
  assume "collect_output_rows tps T transformer ctx
        (Shape (Input2 ctx) ! 1) (Shape (Input3 ctx) ! 1) rows = Inr (st', good @ bad # rest) \<and>
    list_all (arity_ok (Shape (Input2 ctx) ! 1) (Shape (Input3 ctx) ! 1)) good \<and>
    list_all (\<lambda>out. (\<exists>ks. transform (FromString_T T) (get2 out) = Inr ks) \<and>
                    (\<exists>ds. transform (FromStringOptional_T T) (get3 out) = Inr ds)) good \<and>
    \<not> arity_ok (Shape (Input2 ctx) ! 1) (Shape (Input3 ctx) ! 1) bad"
  then show "TimeSeriesImputerTransformerImpl tps T transformer ctx rows =
        Inl (if int (length (get2 bad)) = Shape (Input2 ctx) ! 1
             then Enforce_Columns (length (get3 bad)) (Shape (Input3 ctx) ! 1)
             else Enforce_Keys (length (get2 bad)) (Shape (Input2 ctx) ! 1))"
    unfolding TimeSeriesImputerTransformerImpl_def Let_def
    by (simp add: write_outputs_first_bad)
next
  assume "collect_output_rows tps string_type transformer ctx
        (Shape (Input2 ctx) ! 1) (Shape (Input3 ctx) ! 1) rows = Inr (st'', buffer) \<and>
    \<not> list_all (arity_ok (Shape (Input2 ctx) ! 1) (Shape (Input3 ctx) ! 1)) buffer"
  then show "\<exists>n. TimeSeriesImputerTransformerImpl tps string_type transformer ctx rows =
              Inl (Enforce_Keys n (Shape (Input2 ctx) ! 1)) \<or>
           TimeSeriesImputerTransformerImpl tps string_type transformer ctx rows =
              Inl (Enforce_Columns n (Shape (Input3 ctx) ! 1))"
    unfolding TimeSeriesImputerTransformerImpl_def Let_def
    using write_outputs_string_bad [of "Shape (Input2 ctx) ! 1" "Shape (Input3 ctx) ! 1" buffer tps]
    by simp
qed

text \<open>
  The three hypotheses at concrete runs: the imputer of the design on two rows of one
  group (the call succeeds), and an imputer that emits rows without keys.
\<close>

theorem Impl_checks_arity_witness:
  "TimeSeriesImputerTransformerImpl 1 string_type (spec_imputer 1)
     \<lparr> Input0 = \<lparr> Shape = [0], payload = Uint8_Data [] \<rparr>,
       Input1 = \<lparr> Shape = [2], payload = Int64_Data [0, 2] \<rparr>,
       Input2 = \<lparr> Shape = [2, 1], payload = String_Data [''A'', ''A''] \<rparr>,
       Input3 = \<lparr> Shape = [2, 1], payload = String_Data [''5.0'', []] \<rparr> \<rparr> 2
   = Inr \<lparr> Output0 = \<lparr> Shape = [3], payload = Bool_Data [False, True, False] \<rparr>,
           Output1 = \<lparr> Shape = [3], payload = Int64_Data [0, 1, 2] \<rparr>,
           Output2 = \<lparr> Shape = [3, 1], payload = String_Data [''A'', ''A'', ''A''] \<rparr>,
           Output3 = \<lparr> Shape = [3, 1], payload = String_Data [''5.0'', ''5.0'', ''5.0''] \<rparr> \<rparr> \<and>
   (\<exists>st output_rows.
      collect_output_rows 1 string_type (spec_imputer 1)
        \<lparr> Input0 = \<lparr> Shape = [0], payload = Uint8_Data [] \<rparr>,
          Input1 = \<lparr> Shape = [2], payload = Int64_Data [0, 2] \<rparr>,
          Input2 = \<lparr> Shape = [2, 1], payload = String_Data [''A'', ''A''] \<rparr>,
          Input3 = \<lparr> Shape = [2, 1], payload = String_Data [''5.0'', []] \<rparr> \<rparr> 1 1 2
        = Inr (st, output_rows) \<and>
      list_all (arity_ok 1 1) output_rows) \<and>
   collect_output_rows 1 string_type
     \<lparr> construct = (\<lambda>image. Inr ()),
       execute = (\<lambda>st row. Inr (st, [(False, fst row, [], snd (snd row))])),
       flush = (\<lambda>st. Inr (st, [])) \<rparr>
     \<lparr> Input0 = \<lparr> Shape = [0], payload = Uint8_Data [] \<rparr>,
       Input1 = \<lparr> Shape = [2], payload = Int64_Data [0, 2] \<rparr>,
       Input2 = \<lparr> Shape = [2, 1], payload = String_Data [''A'', ''A''] \<rparr>,
       Input3 = \<lparr> Shape = [2, 1], payload = String_Data [''5.0'', []] \<rparr> \<rparr> 1 1 2
     = Inr ((), [] @ (False, Time_Point 0, [], [Some ''5.0'']) # [(False, Time_Point 2, [], [None])]) \<and>
   \<not> arity_ok 1 1 (False, Time_Point 0, [], [Some ''5.0'']) \<and>
   TimeSeriesImputerTransformerImpl 1 string_type
     \<lparr> construct = (\<lambda>image. Inr ()),
       execute = (\<lambda>st row. Inr (st, [(False, fst row, [], snd (snd row))])),
       flush = (\<lambda>st. Inr (st, [])) \<rparr>
     \<lparr> Input0 = \<lparr> Shape = [0], payload = Uint8_Data [] \<rparr>,
       Input1 = \<lparr> Shape = [2], payload = Int64_Data [0, 2] \<rparr>,
       Input2 = \<lparr> Shape = [2, 1], payload = String_Data [''A'', ''A''] \<rparr>,
       Input3 = \<lparr> Shape = [2, 1], payload = String_Data [''5.0'', []] \<rparr> \<rparr> 2
     = Inl (Enforce_Keys 0 1)"
  (is "?run \<and> ?arity \<and> ?faulty \<and> ?bad \<and> ?fails")
proof -
  have run: ?run
    by (simp add: adapter_defs imputer_defs)
  have faulty: ?faulty
    by (simp add: adapter_defs)
  have bad: ?bad
    by (simp add: arity_ok_def get2_def get3_def)
  from Impl_checks_arity [THEN conjunct1, rule_format, OF run]
  have arity: ?arity by simp
  have "list_all (arity_ok 1 1) []"
    "list_all (\<lambda>out. (\<exists>ks. transform (FromString_T string_type) (get2 out) = Inr ks) \<and>
       (\<exists>ds. transform (FromStringOptional_T string_type) (get3 out) = Inr ds)) []"
    by simp_all
  with faulty bad
    Impl_checks_arity [THEN conjunct2, THEN conjunct1, rule_format,
      of 1 string_type _ _ 2 "()" "[]" "(False, Time_Point 0, [], [Some ''5.0''])"
         "[(False, Time_Point 2, [], [None])]"]
  have fails: ?fails
    by (simp add: get2_def get3_def)
  from run arity faulty bad fails show ?thesis by blast
qed

section \<open>The calls the adapter makes\<close>

text \<open>
  C7. For a batch of \<open>rows\<close> rows the adapter builds the row at each index
  \<open>0, \<dots>, rows - 1\<close> in this order (the timestamp, the keys through \<open>ToString\<close>, the data
  through \<open>ToStringOptional\<close>), calls \<open>execute\<close> once on each, and then calls \<open>flush\<close>
  once; a failing call ends the run. Against the recording imputer the calls recorded are
  exactly these: one \<open>execute\<close> per row, in order, then one \<open>flush\<close>, and nothing after.
\<close>

theorem adapter_call_sequence:
  "feed transformer row_at rows st0 =
     (case execute_each transformer st0 (map row_at [0..rows - 1]) of
        Inl e \<Rightarrow> Inl e
      | Inr (st1, emitted) \<Rightarrow>
          (case flush transformer st1 of
             Inl msg \<Rightarrow> Inl (Engine_Exception msg)
           | Inr (st2, flushed) \<Rightarrow> Inr (st2, emitted @ flushed))) \<and>
   length (map row_at [0..rows - 1]) = nat rows \<and>
   tuple_row tps T times_data keys_data data_data keys_per_row columns row =
     (ToTimePoint tps (times_data ! nat row),
      map (ToString_T T) (take (nat keys_per_row) (drop (nat (row * keys_per_row)) keys_data)),
      map (ToStringOptional_T T) (take (nat columns) (drop (nat (row * columns)) data_data))) \<and>
   collect_output_rows tps string_type recorder
     \<lparr> Input0 = \<lparr> Shape = state_shape, payload = Uint8_Data state_data \<rparr>,
       Input1 = \<lparr> Shape = times_shape, payload = Int64_Data times_data \<rparr>,
       Input2 = \<lparr> Shape = keys_shape, payload = String_Data str_keys \<rparr>,
       Input3 = \<lparr> Shape = data_shape, payload = String_Data str_data \<rparr> \<rparr>
     keys_per_row columns rows =
     Inr (map (\<lambda>row. Execute_Call
                 (tuple_row tps string_type times_data str_keys str_data keys_per_row columns row))
            [0..rows - 1] @ [Flush_Call], [])"
proof (intro conjI)
  show "length (map row_at [0..rows - 1]) = nat rows"
    by simp
  show "collect_output_rows tps string_type recorder
     \<lparr> Input0 = \<lparr> Shape = state_shape, payload = Uint8_Data state_data \<rparr>,
       Input1 = \<lparr> Shape = times_shape, payload = Int64_Data times_data \<rparr>,
       Input2 = \<lparr> Shape = keys_shape, payload = String_Data str_keys \<rparr>,
       Input3 = \<lparr> Shape = data_shape, payload = String_Data str_data \<rparr> \<rparr>
     keys_per_row columns rows =
     Inr (map (\<lambda>row. Execute_Call
                 (tuple_row tps string_type times_data str_keys str_data keys_per_row columns row))
            [0..rows - 1] @ [Flush_Call], [])"
  proof -
    have "construct recorder bytes = Inr []" for bytes
      by (simp add: recorder_def)
    then show ?thesis
      by (simp add: collect_output_rows_def feed_recorder)
  qed
qed (simp_all add: feed_execute_each tuple_row_def Let_def)

section \<open>The outputs follow the emitted rows\<close>

text \<open>
  C8. When the call succeeds, the buffer is what the \<open>execute\<close> calls emitted, in order,
  followed by what \<open>flush\<close> emitted. The four outputs have the buffer's length as their
  first dimension, whatever the number of input rows, and their \<open>i\<close>-th entries (the
  \<open>i\<close>-th row of the two matrices) come from the \<open>i\<close>-th row of the buffer: its flag, its
  time in seconds, its keys as they are, and its values with the empty string for an
  absent one.
\<close>

theorem outputs_follow_emitted_rows:
  assumes "TimeSeriesImputerTransformerImpl tps string_type transformer ctx rows = Inr outs"
  shows "\<exists>state_data st0 times_data keys_data data_data st1 emitted st flushed.
     Data_uint8 (Input0 ctx) = Inr state_data \<and>
     construct transformer (take (nat (Size (Shape (Input0 ctx)))) state_data) = Inr st0 \<and>
     Data_int64 (Input1 ctx) = Inr times_data \<and>
     Data_string (Input2 ctx) = Inr keys_data \<and>
     Data_string (Input3 ctx) = Inr data_data \<and>
     execute_each transformer st0
       (map (tuple_row tps string_type times_data keys_data data_data
               (Shape (Input2 ctx) ! 1) (Shape (Input3 ctx) ! 1)) [0..rows - 1])
       = Inr (st1, emitted) \<and>
     flush transformer st1 = Inr (st, flushed) \<and>
     outs =
      \<lparr> Output0 = \<lparr> Shape = [int (length (emitted @ flushed))],
                    payload = Bool_Data (map get0 (emitted @ flushed)) \<rparr>,
        Output1 = \<lparr> Shape = [int (length (emitted @ flushed))],
                    payload = Int64_Data (map (\<lambda>out. ToSecs tps (get1 out)) (emitted @ flushed)) \<rparr>,
        Output2 = \<lparr> Shape = [int (length (emitted @ flushed)), Shape (Input2 ctx) ! 1],
                    payload = String_Data (concat (map get2 (emitted @ flushed))) \<rparr>,
        Output3 = \<lparr> Shape = [int (length (emitted @ flushed)), Shape (Input3 ctx) ! 1],
                    payload = String_Data
                      (concat (map (\<lambda>out. map absent_to_empty (get3 out)) (emitted @ flushed))) \<rparr> \<rparr> \<and>
     (\<forall>i<length (emitted @ flushed).
        take (nat (Shape (Input2 ctx) ! 1)) (drop (i * nat (Shape (Input2 ctx) ! 1))
          (concat (map get2 (emitted @ flushed)))) = get2 ((emitted @ flushed) ! i) \<and>
        take (nat (Shape (Input3 ctx) ! 1)) (drop (i * nat (Shape (Input3 ctx) ! 1))
          (concat (map (\<lambda>out. map absent_to_empty (get3 out)) (emitted @ flushed)))) =
          map absent_to_empty (get3 ((emitted @ flushed) ! i)))"
proof -
  let ?K = "Shape (Input2 ctx) ! 1" and ?C = "Shape (Input3 ctx) ! 1"
  from Impl_Inr [OF assms] obtain st output_rows where
    collect: "collect_output_rows tps string_type transformer ctx ?K ?C rows = Inr (st, output_rows)"
    and "write": "write_outputs tps string_type ?K ?C output_rows = Inr outs"
    by blast
  from collect_output_rows_Inr [OF collect]
  obtain state_data st0 times_data keys_data data_data st1 emitted flushed where
    parts: "Data_uint8 (Input0 ctx) = Inr state_data"
      "construct transformer (take (nat (Size (Shape (Input0 ctx)))) state_data) = Inr st0"
      "Data_int64 (Input1 ctx) = Inr times_data"
      "Data_string (Input2 ctx) = Inr keys_data"
      "Data_string (Input3 ctx) = Inr data_data"
      "execute_each transformer st0
         (map (tuple_row tps string_type times_data keys_data data_data ?K ?C) [0..rows - 1])
         = Inr (st1, emitted)"
      "flush transformer st1 = Inr (st, flushed)"
    and buffer: "output_rows = emitted @ flushed"
    unfolding string_type_sel by blast
  note outs = write_outputs_string_Inr [OF "write", unfolded buffer]
  from write_outputs_Inr_arity [OF "write"]
  have arity: "list_all (arity_ok ?K ?C) (emitted @ flushed)"
    by (simp add: buffer)
  have slices: "\<forall>i<length (emitted @ flushed).
        take (nat ?K) (drop (i * nat ?K) (concat (map get2 (emitted @ flushed))))
          = get2 ((emitted @ flushed) ! i) \<and>
        take (nat ?C) (drop (i * nat ?C)
          (concat (map (\<lambda>out. map absent_to_empty (get3 out)) (emitted @ flushed)))) =
          map absent_to_empty (get3 ((emitted @ flushed) ! i))"
    using collect_keys_slice [OF arity] by blast
  from parts outs slices show ?thesis by blast
qed

text \<open>
  The hypothesis at the design's example: two rows in, three rows out. An imputer that
  emits nothing gives outputs of length zero for the same batch.
\<close>

theorem outputs_follow_emitted_rows_witness:
  "TimeSeriesImputerTransformerImpl 1 string_type (spec_imputer 1)
     \<lparr> Input0 = \<lparr> Shape = [0], payload = Uint8_Data [] \<rparr>,
       Input1 = \<lparr> Shape = [2], payload = Int64_Data [0, 2] \<rparr>,
       Input2 = \<lparr> Shape = [2, 1], payload = String_Data [''A'', ''A''] \<rparr>,
       Input3 = \<lparr> Shape = [2, 1], payload = String_Data [''5.0'', []] \<rparr> \<rparr> 2
   = Inr \<lparr> Output0 = \<lparr> Shape = [3], payload = Bool_Data [False, True, False] \<rparr>,
           Output1 = \<lparr> Shape = [3], payload = Int64_Data [0, 1, 2] \<rparr>,
           Output2 = \<lparr> Shape = [3, 1], payload = String_Data [''A'', ''A'', ''A''] \<rparr>,
           Output3 = \<lparr> Shape = [3, 1], payload = String_Data [''5.0'', ''5.0'', ''5.0''] \<rparr> \<rparr> \<and>
   (\<exists>st0 st1 st emitted flushed.
      execute_each (spec_imputer 1) st0
        (map (tuple_row 1 string_type [0, 2] [''A'', ''A''] [''5.0'', []] 1 1) [0..2 - 1])
        = Inr (st1, emitted) \<and>
      flush (spec_imputer 1) st1 = Inr (st, flushed) \<and>
      [3] = [int (length (emitted @ flushed))] \<and>
      [False, True, False] = map get0 (emitted @ flushed) \<and>
      [0, 1, 2] = map (\<lambda>out. ToSecs 1 (get1 out)) (emitted @ flushed) \<and>
      [''A'', ''A'', ''A''] = concat (map get2 (emitted @ flushed)) \<and>
      [''5.0'', ''5.0'', ''5.0''] =
        concat (map (\<lambda>out. map absent_to_empty (get3 out)) (emitted @ flushed))) \<and>
   TimeSeriesImputerTransformerImpl 1 string_type
     \<lparr> construct = (\<lambda>image. Inr ()), execute = (\<lambda>st row. Inr (st, [])),
       flush = (\<lambda>st. Inr (st, [])) \<rparr>
     \<lparr> Input0 = \<lparr> Shape = [0], payload = Uint8_Data [] \<rparr>,
       Input1 = \<lparr> Shape = [2], payload = Int64_Data [0, 2] \<rparr>,
       Input2 = \<lparr> Shape = [2, 1], payload = String_Data [''A'', ''A''] \<rparr>,
       Input3 = \<lparr> Shape = [2, 1], payload = String_Data [''5.0'', []] \<rparr> \<rparr> 2
   = Inr \<lparr> Output0 = \<lparr> Shape = [0], payload = Bool_Data [] \<rparr>,
           Output1 = \<lparr> Shape = [0], payload = Int64_Data [] \<rparr>,
           Output2 = \<lparr> Shape = [0, 1], payload = String_Data [] \<rparr>,
           Output3 = \<lparr> Shape = [0, 1], payload = String_Data [] \<rparr> \<rparr>"
  (is "?run \<and> ?rows \<and> ?silent")
proof -
  have run: ?run
    by (simp add: adapter_defs imputer_defs)
  have silent: ?silent
    by (simp add: adapter_defs)
  from outputs_follow_emitted_rows [OF run]
  have ?rows
    by simp blast
  with run silent show ?thesis by blast
qed

section \<open>The value codec\<close>

text \<open>
  C3. Absence in the codec. For \<open>float\<close> and \<open>double\<close>, encoding a NaN gives the absent
  state and encoding any other value gives the present string \<open>std::to_string\<close> prints;
  decoding the absent state gives the quiet NaN, which is a NaN. For \<open>std::string\<close>,
  encoding the empty string gives the absent state and encoding any other string gives
  that string; decoding the absent state gives the empty string.
\<close>

theorem value_codec_absence:
  "ToStringOptional_T float_type x =
     (if isnan_float x then None else Some (to_string_float x)) \<and>
   ToStringOptional_T double_type y =
     (if isnan_double y then None else Some (to_string_double y)) \<and>
   FromStringOptional_T float_type None = Inr quiet_NaN_float \<and> isnan_float quiet_NaN_float \<and>
   FromStringOptional_T double_type None = Inr quiet_NaN_double \<and> isnan_double quiet_NaN_double \<and>
   ToStringOptional_T string_type s = (if s = [] then None else Some s) \<and>
   FromStringOptional_T string_type None = Inr []"
  by (simp add: ToStringOptional_def FromStringOptional_def quiet_NaN_is_nan
      ToStringOptional_string_def FromStringOptional_string_def)





text \<open>
  C6. Keys go through the variant of the codec that has no absent state: \<open>ToString\<close>
  returns a string for every key, and \<open>FromString\<close> decodes it. For \<open>std::string\<close> both
  are the identity, so decoding a key never fails. For \<open>float\<close> and \<open>double\<close> decoding the
  encoding of a key never fails either: what \<open>std::to_string\<close> prints begins with a
  number.
\<close>

theorem key_codec_total:
  "ToString_T string_type s = s \<and>
   FromString_T string_type s = Inr s \<and>
   transform (FromString_T string_type) keys = Inr keys \<and>
   FromString_T float_type (ToString_T float_type x) =
     Inr (fst (strtof (c_str (to_string_float x)))) \<and>
   FromString_T double_type (ToString_T double_type y) =
     Inr (fst (strtod (c_str (to_string_double y))))"
  by (simp add: ToString_string_def FromString_string_def ToString_def
      transform_FromString_string FromString_float_to_string FromString_double_to_string)

section \<open>The order of the output timestamps\<close>



end
